theory Spec2Isabelle
  imports Main "HOL-Library.Multiset"
begin

section \<open>The circulation store of the library manager (class LibraryManager, src/app.js)\<close>

text \<open>
  The store owns four arrays: books, students, loans and loanHistory. Every method of the
  class is modelled as a function from the store to a result and the store after the call.
  A \<open>throw\<close> is the result \<open>Inl e\<close>, returned together with the store as it stands at the
  point of the throw.

  Conventions of the embedding:
  \<^item> JavaScript strings are \<open>string\<close>; a field that may be \<open>undefined\<close> or \<open>null\<close> is an
    \<open>option\<close>.
  \<^item> A Number of the language is a double. The ones that occur here (what \<open>parseInt\<close>
    returns on digits, student numbers, and these plus one) are integer-valued or infinite:
    the type \<open>jsnum\<close>, with the rounding to the nearest double written out. NaN is
    \<open>None\<close> where a number may be absent. The clock readings are time values, below
    \<open>2 ^ 53\<close>, where \<open>toString\<close> is the plain decimal.
  \<^item> An instant is its number of milliseconds since the epoch; \<open>toISOString\<close> is kept as the
    identity on valid instants and as the RangeError it throws on an invalid one.
  \<^item> Every evaluation of \<open>Date.now()\<close> or \<open>new Date()\<close> is an argument of the method that
    makes it, in the order in which the method reads the clock.
  \<^item> \<open>saveData\<close> writes the serialised array to localStorage and catches its own failures;
    it neither changes the four arrays nor the control flow, and is left out.
  \<^item> Field names are the ones of the source, except where three records share one or the
    name is reserved: \<open>id\<close> is \<open>book_id\<close>, \<open>student_id\<close>, \<open>loan_id\<close>; \<open>addedDate\<close> is
    \<open>book_addedDate\<close>, \<open>student_addedDate\<close>; \<open>note\<close> is \<open>loan_note\<close>. The status of a book
    is the string of the source, \<open>''available''\<close> or \<open>''loaned''\<close>.
\<close>

subsection \<open>Numbers of the host language\<close>

text \<open>
  The integer-valued doubles and the two infinities, ordered as the language compares them.
  \<open>Fin i\<close> stands for the double of value \<open>i\<close>; the functions below only produce
  integers that a double can hold.
\<close>

datatype jsnum = NegInf | Fin int | PosInf

instantiation jsnum :: linorder
begin

fun less_eq_jsnum :: "jsnum \<Rightarrow> jsnum \<Rightarrow> bool" where
  "less_eq_jsnum NegInf y = True"
| "less_eq_jsnum (Fin a) NegInf = False"
| "less_eq_jsnum (Fin a) (Fin b) = (a \<le> b)"
| "less_eq_jsnum (Fin a) PosInf = True"
| "less_eq_jsnum PosInf NegInf = False"
| "less_eq_jsnum PosInf (Fin b) = False"
| "less_eq_jsnum PosInf PosInf = True"

definition less_jsnum :: "jsnum \<Rightarrow> jsnum \<Rightarrow> bool" where
  "less_jsnum x y = (x \<le> y \<and> \<not> y \<le> x)"

instance
proof
  fix x y z :: jsnum
  show "(x < y) = (x \<le> y \<and> \<not> y \<le> x)" by (simp add: less_jsnum_def)
  show "x \<le> x" by (cases x) simp_all
  show "x \<le> y \<Longrightarrow> y \<le> z \<Longrightarrow> x \<le> z" by (cases x; cases y; cases z) simp_all
  show "x \<le> y \<Longrightarrow> y \<le> x \<Longrightarrow> x = y" by (cases x; cases y) simp_all
  show "x \<le> y \<or> y \<le> x" by (cases x; cases y) auto
qed

end

text \<open>The number of binary digits of a natural number.\<close>

fun bit_length :: "nat \<Rightarrow> nat" where
  "bit_length n = (if n = 0 then 0 else bit_length (n div 2) + 1)"

declare bit_length.simps [simp del]

text \<open>
  The double nearest to a natural number, ties to the even significand (the rounding of
  every arithmetic operation and of every conversion to a Number): the number itself up to
  \<open>2 ^ 53\<close>; above, the 53 leading binary digits rounded; \<open>None\<close>, for Infinity, when the
  result reaches \<open>2 ^ 1024\<close>.
\<close>

definition round_nat :: "nat \<Rightarrow> nat option" where
  "round_nat n =
     (if n \<le> 9007199254740992 then Some n
      else
        (let e = bit_length n - 53;
             q = n div 2 ^ e;
             r = n mod 2 ^ e;
             h = 2 ^ (e - 1);
             q' = (if h < r \<or> (r = h \<and> odd q) then q + 1 else q);
             v = q' * 2 ^ e
         in if v < 2 ^ 1024 then Some v else None))"

definition to_double :: "int \<Rightarrow> jsnum" where
  "to_double i =
     (if 0 \<le> i
      then (case round_nat (nat i) of Some v \<Rightarrow> Fin (int v) | None \<Rightarrow> PosInf)
      else (case round_nat (nat (- i)) of Some v \<Rightarrow> Fin (- int v) | None \<Rightarrow> NegInf))"

text \<open>\<open>x + 1\<close> on a Number.\<close>

fun plus_one :: "jsnum \<Rightarrow> jsnum" where
  "plus_one (Fin i) = to_double (i + 1)"
| "plus_one PosInf = PosInf"
| "plus_one NegInf = NegInf"

subsection \<open>Records\<close>

record book =
  book_id :: string
  title :: "string option"
  author :: string
  publisher :: string
  status :: string
  book_addedDate :: nat

record student =
  student_id :: string
  number :: jsnum
  name :: "string option"
  student_addedDate :: nat

record loan =
  loan_id :: string
  bookId :: string
  studentId :: string
  loanDate :: nat
  dueDate :: int
  loan_note :: string

text \<open>A history entry is the spread of a loan plus \<open>returnDate\<close>.\<close>

record history_entry = loan +
  returnDate :: nat

record store =
  books :: "book list"
  students :: "student list"
  loans :: "loan list"
  loanHistory :: "history_entry list"

definition empty_store :: store where
  "empty_store = \<lparr>books = [], students = [], loans = [], loanHistory = []\<rparr>"

text \<open>
  The thrown values are \<open>new Error(message)\<close> with one message per failure; they are named
  here after the failure. \<open>returnBook\<close> and \<open>deleteLoan\<close> throw the same message.
  \<open>RangeError\<close> is what \<open>Date.prototype.toISOString\<close> throws on an invalid date.
\<close>

datatype error =
  DuplicateIdError
  | BookOnLoanError
  | BookNotFoundError
  | StudentNotFoundError
  | BookAlreadyLoanedError
  | LoanNotFoundError
  | StudentHasActiveLoansError
  | RangeError

subsection \<open>Strings and numbers of the host language\<close>

text \<open>The decimal digits of a natural number.\<close>

definition digit_char :: "nat \<Rightarrow> char" where
  "digit_char d = ''0123456789'' ! d"

fun decimal :: "nat \<Rightarrow> string" where
  "decimal n = (if n < 10 then [digit_char n] else decimal (n div 10) @ [digit_char (n mod 10)])"

declare decimal.simps [simp del]

text \<open>\<open>\d\<close> of a JavaScript regular expression: the ten ASCII digits.\<close>

definition is_digit :: "char \<Rightarrow> bool" where
  "is_digit c = (48 \<le> (of_char c :: nat) \<and> (of_char c :: nat) \<le> 57)"

definition digit_val :: "char \<Rightarrow> nat" where
  "digit_val c = of_char c - 48"

text \<open>The integer that a string of digits denotes.\<close>

definition digits_value :: "string \<Rightarrow> nat" where
  "digits_value ds = foldl (\<lambda>acc c. 10 * acc + digit_val c) 0 ds"

text \<open>
  \<open>parseInt\<close> on a string of digits (the only strings it is applied to here): the Number
  for the integer denoted, that is, the nearest double. (Past the 20th significant digit
  the language lets an implementation read zeros; the engines round the exact value.)
\<close>

definition parseInt :: "string \<Rightarrow> jsnum" where
  "parseInt ds = to_double (int (digits_value ds))"

text \<open>
  \<open>String(x)\<close> on a Number, for a non-negative integer-valued double \<open>x\<close>: with \<open>k\<close> as
  small as possible, the digits \<open>s\<close> (\<open>k\<close> of them) and the exponent \<open>n\<close> such that
  \<open>s * 10 ^ (n - k)\<close> rounds to \<open>x\<close>, the closest such \<open>s\<close> and the even one on a tie.
  Up to \<open>2 ^ 53\<close> these are the decimal digits of \<open>x\<close> itself. The result is the digits
  followed by zeros while \<open>n \<le> 21\<close>, and the exponent notation from there on.
\<close>

definition candidates :: "nat \<Rightarrow> nat \<Rightarrow> (nat \<times> nat) list" where
  "candidates x k =
     [(s, n). n \<leftarrow> [length (decimal x), length (decimal x) + 1],
              s \<leftarrow> [x div 10 ^ (n - k), x div 10 ^ (n - k) + 1],
              10 ^ (k - 1) \<le> s \<and> s < 10 ^ k \<and> round_nat (s * 10 ^ (n - k)) = Some x]"

definition gap :: "nat \<Rightarrow> nat \<Rightarrow> nat \<times> nat \<Rightarrow> nat" where
  "gap x k c = (let v = fst c * 10 ^ (snd c - k) in if v < x then x - v else v - x)"

fun closest :: "nat \<Rightarrow> nat \<Rightarrow> (nat \<times> nat) list \<Rightarrow> (nat \<times> nat) option" where
  "closest x k [] = None"
| "closest x k (c # cs) =
     (case closest x k cs of
        None \<Rightarrow> Some c
      | Some c' \<Rightarrow>
          if gap x k c < gap x k c' \<or> (gap x k c = gap x k c' \<and> even (fst c))
          then Some c else Some c')"

fun shortest :: "nat \<Rightarrow> nat list \<Rightarrow> (nat \<times> nat \<times> nat) option" where
  "shortest x [] = None"
| "shortest x (k # ks) =
     (case closest x k (candidates x k) of
        Some (s, n) \<Rightarrow> Some (s, n, k)
      | None \<Rightarrow> shortest x ks)"

definition nat_toString :: "nat \<Rightarrow> string" where
  "nat_toString x =
     (if x \<le> 9007199254740992 then decimal x
      else
        (case shortest x [1..<Suc (length (decimal x))] of
           None \<Rightarrow> decimal x
         | Some (s, n, k) \<Rightarrow>
             if n \<le> 21 then decimal s @ replicate (n - k) (CHR ''0'')
             else (if k = 1 then decimal s
                   else hd (decimal s) # CHR ''.'' # tl (decimal s))
                  @ ''e+'' @ decimal (n - 1)))"

fun number_toString :: "jsnum \<Rightarrow> string" where
  "number_toString PosInf = ''Infinity''"
| "number_toString NegInf = ''-Infinity''"
| "number_toString (Fin i) =
     (if i < 0 then CHR ''-'' # nat_toString (nat (- i)) else nat_toString (nat i))"

text \<open>\<open>id.match(/^B(\d+)$/)\<close>: the captured group when the whole id is B and digits.\<close>

fun match_B_digits :: "string \<Rightarrow> string option" where
  "match_B_digits [] = None"
| "match_B_digits (c # ds) =
     (if c = CHR ''B'' \<and> ds \<noteq> [] \<and> list_all is_digit ds then Some ds else None)"

definition padStart :: "nat \<Rightarrow> char \<Rightarrow> string \<Rightarrow> string" where
  "padStart n c str = replicate (n - length str) c @ str"

text \<open>\<open>x || d\<close> on an optional string: the empty string is falsy as well.\<close>

fun or_string :: "string option \<Rightarrow> string \<Rightarrow> string" where
  "or_string None d = d"
| "or_string (Some v) d = (if v = [] then d else v)"

text \<open>\<open>x || d\<close> on an optional number: 0 is falsy (\<open>None\<close> is null, undefined or NaN).\<close>

fun or_number :: "jsnum option \<Rightarrow> jsnum \<Rightarrow> jsnum" where
  "or_number None d = d"
| "or_number (Some v) d = (if v = Fin 0 then d else v)"

text \<open>\<open>findIndex\<close>, with \<open>None\<close> for -1, and \<open>splice(i, 1)\<close>.\<close>

fun findIndex :: "('a \<Rightarrow> bool) \<Rightarrow> 'a list \<Rightarrow> nat option" where
  "findIndex P [] = None"
| "findIndex P (x # xs) =
     (if P x then Some 0 else map_option Suc (findIndex P xs))"

definition splice1 :: "nat \<Rightarrow> 'a list \<Rightarrow> 'a list" where
  "splice1 i xs = take i xs @ drop (Suc i) xs"

subsection \<open>Dates\<close>

text \<open>
  The third argument of \<open>loanBook\<close>: omitted (the default 14 applies), NaN (what
  \<open>parseInt\<close> of an empty form field gives), or an integer.
\<close>

datatype days_arg = DaysOmitted | DaysNaN | Days int

fun days_value :: "days_arg \<Rightarrow> int option" where
  "days_value DaysOmitted = Some 14"
| "days_value DaysNaN = None"
| "days_value (Days d) = Some d"

definition msPerDay :: int where
  "msPerDay = 86400000"

definition maxTime :: int where
  "maxTime = 8640000000000000"

text \<open>
  \<open>dueDate.setDate(dueDate.getDate() + days)\<close> followed by \<open>toISOString()\<close>: the instant
  moved by whole calendar days (taken as 24 hours each: a host zone without clock changes),
  invalid when \<open>days\<close> is NaN or the result leaves the range of time values, in which case
  \<open>toISOString\<close> throws.
\<close>

definition due_instant :: "nat \<Rightarrow> days_arg \<Rightarrow> int option" where
  "due_instant t days =
     (case days_value days of
        None \<Rightarrow> None
      | Some d \<Rightarrow>
          (let due = int t + d * msPerDay
           in if - maxTime \<le> due \<and> due \<le> maxTime then Some due else None))"

subsection \<open>Books\<close>

record book_data =
  data_id :: "string option"
  data_title :: "string option"
  data_author :: "string option"
  data_publisher :: "string option"

definition generateBookId :: "store \<Rightarrow> string" where
  "generateBookId s =
     (let maxId = foldl (\<lambda>mx b.
                     (case match_B_digits (book_id b) of
                        Some ds \<Rightarrow> (let num = parseInt ds in if num > mx then num else mx)
                      | None \<Rightarrow> mx)) (Fin 0) (books s)
      in CHR ''B'' # padStart 3 (CHR ''0'') (number_toString (plus_one maxId)))"

definition addBook :: "nat \<Rightarrow> book_data \<Rightarrow> store \<Rightarrow> (error + book) \<times> store" where
  "addBook now bookData s =
     (let b = \<lparr>book_id = or_string (data_id bookData) (generateBookId s),
               title = data_title bookData,
               author = or_string (data_author bookData) [],
               publisher = or_string (data_publisher bookData) [],
               status = ''available'',
               book_addedDate = now\<rparr>
      in if find (\<lambda>x. book_id x = book_id b) (books s) \<noteq> None
         then (Inl DuplicateIdError, s)
         else (Inr b, s\<lparr>books := books s @ [b]\<rparr>))"

definition deleteBook :: "string \<Rightarrow> store \<Rightarrow> (error + unit) \<times> store" where
  "deleteBook bid s =
     (case find (\<lambda>b. book_id b = bid) (books s) of
        Some b \<Rightarrow>
          if status b = ''loaned'' then (Inl BookOnLoanError, s)
          else (Inr (), s\<lparr>books := filter (\<lambda>x. book_id x \<noteq> bid) (books s)\<rparr>)
      | None \<Rightarrow> (Inr (), s\<lparr>books := filter (\<lambda>x. book_id x \<noteq> bid) (books s)\<rparr>))"

definition getBook :: "string \<Rightarrow> store \<Rightarrow> book option" where
  "getBook bid s = find (\<lambda>b. book_id b = bid) (books s)"

text \<open>
  \<open>book.status = v\<close> on the object that \<open>getBook\<close> returned: that object is the first
  element of the books array with the id, and the assignment changes it in place.
\<close>

fun set_status :: "string \<Rightarrow> string \<Rightarrow> book list \<Rightarrow> book list" where
  "set_status bid v [] = []"
| "set_status bid v (b # bs) =
     (if book_id b = bid then b\<lparr>status := v\<rparr> # bs else b # set_status bid v bs)"

subsection \<open>Students\<close>

record student_data =
  data_number :: "jsnum option"
  data_name :: "string option"

definition generateStudentNumber :: "store \<Rightarrow> jsnum" where
  "generateStudentNumber s =
     (let maxNumber =
        foldl (\<lambda>mx st. if number st > mx then number st else mx) (Fin 0) (students s)
      in plus_one maxNumber)"

text \<open>
  \<open>students.sort((a, b) => a.number - b.number)\<close>: the array sorted by number, equal
  numbers keeping their order (the sort of the language is stable; the difference of two
  equal infinities is NaN, which the sort reads as 0).
\<close>

definition addStudent ::
  "nat \<Rightarrow> nat \<Rightarrow> student_data \<Rightarrow> store \<Rightarrow> (error + student) \<times> store" where
  "addStudent now_id now_added studentData s =
     (let st = \<lparr>student_id = decimal now_id,
                number = or_number (data_number studentData) (generateStudentNumber s),
                name = data_name studentData,
                student_addedDate = now_added\<rparr>
      in (Inr st, s\<lparr>students := sort_key number (students s @ [st])\<rparr>))"

definition deleteStudent :: "string \<Rightarrow> store \<Rightarrow> (error + unit) \<times> store" where
  "deleteStudent sid s =
     (if list_ex (\<lambda>l. studentId l = sid) (loans s)
      then (Inl StudentHasActiveLoansError, s)
      else (Inr (), s\<lparr>students := filter (\<lambda>x. student_id x \<noteq> sid) (students s)\<rparr>))"

definition getStudent :: "string \<Rightarrow> store \<Rightarrow> student option" where
  "getStudent sid s = find (\<lambda>x. student_id x = sid) (students s)"

record bulk_results =
  success :: "student list"
  failed :: "(student_data \<times> error) list"

text \<open>
  \<open>addStudentsBulk\<close>: the \<open>forEach\<close> over the input with its try/catch. The clock is the
  sequence of its readings, \<open>clk k\<close> being the \<open>k\<close>-th reading made during the call; each
  \<open>addStudent\<close> makes two.
\<close>

fun bulk_loop ::
  "(nat \<Rightarrow> nat) \<Rightarrow> nat \<Rightarrow> student_data list \<Rightarrow> bulk_results \<Rightarrow> store \<Rightarrow> bulk_results \<times> store" where
  "bulk_loop clk k [] results s = (results, s)"
| "bulk_loop clk k (d # ds) results s =
     (case addStudent (clk k) (clk (k + 1)) d s of
        (Inr st, s') \<Rightarrow>
          bulk_loop clk (k + 2) ds (results\<lparr>success := success results @ [st]\<rparr>) s'
      | (Inl e, s') \<Rightarrow>
          bulk_loop clk (k + 2) ds (results\<lparr>failed := failed results @ [(d, e)]\<rparr>) s')"

definition addStudentsBulk ::
  "(nat \<Rightarrow> nat) \<Rightarrow> student_data list \<Rightarrow> store \<Rightarrow> bulk_results \<times> store" where
  "addStudentsBulk clk studentsData s =
     bulk_loop clk 0 studentsData \<lparr>success = [], failed = []\<rparr> s"

subsection \<open>Loans\<close>

definition loanBook ::
  "nat \<Rightarrow> nat \<Rightarrow> string \<Rightarrow> string \<Rightarrow> days_arg \<Rightarrow> string option \<Rightarrow> store
    \<Rightarrow> (error + loan) \<times> store" where
  "loanBook now_date now_id bid sid days nt s =
     (case getBook bid s of
        None \<Rightarrow> (Inl BookNotFoundError, s)
      | Some b \<Rightarrow>
          (case getStudent sid s of
             None \<Rightarrow> (Inl StudentNotFoundError, s)
           | Some st \<Rightarrow>
               if status b = ''loaned'' then (Inl BookAlreadyLoanedError, s)
               else
                 (case due_instant now_date days of
                    None \<Rightarrow> (Inl RangeError, s)
                  | Some due \<Rightarrow>
                      (let l = \<lparr>loan_id = decimal now_id, bookId = bid, studentId = sid,
                                loanDate = now_date, dueDate = due,
                                loan_note = (case nt of None \<Rightarrow> [] | Some v \<Rightarrow> v)\<rparr>
                       in (Inr l, s\<lparr>loans := loans s @ [l],
                                    books := set_status bid ''loaned'' (books s)\<rparr>)))))"

definition close_loan :: "loan \<Rightarrow> nat \<Rightarrow> history_entry" where
  "close_loan l t =
     \<lparr>loan_id = loan_id l, bookId = bookId l, studentId = studentId l,
      loanDate = loanDate l, dueDate = dueDate l, loan_note = loan_note l,
      returnDate = t\<rparr>"

definition returnBook :: "nat \<Rightarrow> string \<Rightarrow> store \<Rightarrow> (error + loan) \<times> store" where
  "returnBook now bid s =
     (case findIndex (\<lambda>l. bookId l = bid) (loans s) of
        None \<Rightarrow> (Inl LoanNotFoundError, s)
      | Some i \<Rightarrow>
          (let l = loans s ! i
           in (Inr l, s\<lparr>loanHistory := loanHistory s @ [close_loan l now],
                        loans := splice1 i (loans s),
                        books := set_status bid ''available'' (books s)\<rparr>)))"

definition deleteLoan :: "string \<Rightarrow> store \<Rightarrow> (error + unit) \<times> store" where
  "deleteLoan bid s =
     (case findIndex (\<lambda>l. bookId l = bid) (loans s) of
        None \<Rightarrow> (Inl LoanNotFoundError, s)
      | Some i \<Rightarrow>
          (Inr (), s\<lparr>loans := splice1 i (loans s),
                     books := set_status bid ''available'' (books s)\<rparr>))"

subsection \<open>Export and import\<close>

record snapshot =
  snap_books :: "book list option"
  snap_students :: "student list option"
  snap_loans :: "loan list option"
  snap_loanHistory :: "history_entry list option"
  exportDate :: "nat option"

definition exportData :: "nat \<Rightarrow> store \<Rightarrow> snapshot" where
  "exportData now s =
     \<lparr>snap_books = Some (books s), snap_students = Some (students s),
      snap_loans = Some (loans s), snap_loanHistory = Some (loanHistory s),
      exportDate = Some now\<rparr>"

text \<open>\<open>if (data.books)\<close>: an array, even an empty one, is truthy; an absent field is not.\<close>

definition importData :: "snapshot \<Rightarrow> store \<Rightarrow> store" where
  "importData d s =
     (let s1 = (case snap_books d of Some v \<Rightarrow> s\<lparr>books := v\<rparr> | None \<Rightarrow> s);
          s2 = (case snap_students d of Some v \<Rightarrow> s1\<lparr>students := v\<rparr> | None \<Rightarrow> s1);
          s3 = (case snap_loans d of Some v \<Rightarrow> s2\<lparr>loans := v\<rparr> | None \<Rightarrow> s2)
      in (case snap_loanHistory d of Some v \<Rightarrow> s3\<lparr>loanHistory := v\<rparr> | None \<Rightarrow> s3))"

subsection \<open>Calls and reachable stores\<close>

text \<open>
  One constructor per mutating method on single entities, with the clock readings and the
  arguments of the call.
\<close>

datatype op =
  AddBook nat book_data
  | DeleteBook string
  | AddStudent nat nat student_data
  | DeleteStudent string
  | LoanBook nat nat string string days_arg "string option"
  | ReturnBook nat string
  | DeleteLoan string

definition outcome :: "(error + 'a) \<times> store \<Rightarrow> error option \<times> store" where
  "outcome r = ((case fst r of Inl e \<Rightarrow> Some e | Inr v \<Rightarrow> None), snd r)"

fun run :: "op \<Rightarrow> store \<Rightarrow> error option \<times> store" where
  "run (AddBook now d) s = outcome (addBook now d s)"
| "run (DeleteBook bid) s = outcome (deleteBook bid s)"
| "run (AddStudent t1 t2 d) s = outcome (addStudent t1 t2 d s)"
| "run (DeleteStudent sid) s = outcome (deleteStudent sid s)"
| "run (LoanBook t1 t2 bid sid days nt) s = outcome (loanBook t1 t2 bid sid days nt s)"
| "run (ReturnBook now bid) s = outcome (returnBook now bid s)"
| "run (DeleteLoan bid) s = outcome (deleteLoan bid s)"

inductive reachable :: "store \<Rightarrow> bool" where
  reachable_empty: "reachable empty_store"
| reachable_run: "reachable s \<Longrightarrow> reachable (snd (run c s))"

subsection \<open>Definitions used to state the properties\<close>

text \<open>
  The next book id in the words of the specification: among the existing ids that match
  B followed by digits, take the maximum numeric suffix (0 when none matches), increment
  it, pad it with zeros to three digits and put B in front.
\<close>

definition spec_next_book_id :: "string list \<Rightarrow> string" where
  "spec_next_book_id ids =
     (let suffixes = map (\<lambda>i. digits_value (tl i)) (filter (\<lambda>i. match_B_digits i \<noteq> None) ids)
      in CHR ''B'' # padStart 3 (CHR ''0'') (decimal (Max (insert 0 (set suffixes)) + 1)))"

text \<open>Every numeric suffix of the catalog is below \<open>2 ^ 53\<close>, where the Numbers are exact.\<close>

definition exact_suffixes :: "store \<Rightarrow> bool" where
  "exact_suffixes s \<longleftrightarrow>
     (\<forall>b \<in> set (books s). match_B_digits (book_id b) \<noteq> None
        \<longrightarrow> digits_value (tl (book_id b)) < 9007199254740992)"

text \<open>Removing the first element that satisfies a predicate: what findIndex and splice do.\<close>

fun remove_first :: "('a \<Rightarrow> bool) \<Rightarrow> 'a list \<Rightarrow> 'a list" where
  "remove_first P [] = []"
| "remove_first P (x # xs) = (if P x then xs else x # remove_first P xs)"

text \<open>
  The invariant of the reachable stores: book ids are unique, no book has two active loans,
  every active loan is for a book of the catalog that is marked loaned, every book marked
  loaned has an active loan, and no other status than the two occurs.
\<close>

definition store_inv :: "store \<Rightarrow> bool" where
  "store_inv s \<longleftrightarrow>
     distinct (map book_id (books s))
     \<and> distinct (map bookId (loans s))
     \<and> (\<forall>l \<in> set (loans s). \<exists>b \<in> set (books s). book_id b = bookId l \<and> status b = ''loaned'')
     \<and> (\<forall>b \<in> set (books s). status b = ''loaned'' \<longrightarrow> book_id b \<in> bookId ` set (loans s))
     \<and> (\<forall>b \<in> set (books s). status b = ''loaned'' \<or> status b = ''available'')"

subsection \<open>Stores used as examples\<close>

definition emma :: book_data where
  "emma = \<lparr>data_id = None, data_title = Some ''Emma'', data_author = Some ''Austen'',
            data_publisher = None\<rparr>"

definition kim :: student_data where
  "kim = \<lparr>data_number = None, data_name = Some ''Kim''\<rparr>"

text \<open>One book and one student, registered in the empty store.\<close>

definition one_book :: store where
  "one_book = snd (run (AddStudent 20 21 kim) (snd (run (AddBook 10 emma) empty_store)))"

text \<open>The same store after the student has borrowed the book for the default period.\<close>

definition one_book_lent :: store where
  "one_book_lent = snd (run (LoanBook 30 31 ''B001'' ''20'' DaysOmitted None) one_book)"

definition kims_loan :: loan where
  "kims_loan = \<lparr>loan_id = ''31'', bookId = ''B001'', studentId = ''20'', loanDate = 30,
                 dueDate = 1209600030, loan_note = []\<rparr>"

text \<open>A catalog with the ids B003 and B001.\<close>

definition two_books :: store where
  "two_books =
     \<lparr>books = [\<lparr>book_id = ''B003'', title = Some ''Ulysses'', author = ''Joyce'',
                 publisher = [], status = ''available'', book_addedDate = 12\<rparr>,
               \<lparr>book_id = ''B001'', title = Some ''Emma'', author = ''Austen'',
                 publisher = [], status = ''available'', book_addedDate = 10\<rparr>],
      students = [], loans = [], loanHistory = []\<rparr>"

text \<open>A roster whose only student was registered with the number -5.\<close>

definition minus_five :: store where
  "minus_five =
     \<lparr>books = [],
      students = [\<lparr>student_id = ''3'', number = Fin (- 5), name = Some ''Lee'',
                    student_addedDate = 4\<rparr>],
      loans = [], loanHistory = []\<rparr>"

text \<open>A roster whose only student has the number \<open>2 ^ 53\<close>.\<close>

definition big_number :: store where
  "big_number =
     \<lparr>books = [],
      students = [\<lparr>student_id = ''3'', number = Fin 9007199254740992, name = Some ''Lee'',
                    student_addedDate = 4\<rparr>],
      loans = [], loanHistory = []\<rparr>"

text \<open>A catalog whose only id has the suffix \<open>2 ^ 53\<close>.\<close>

definition big_suffix :: store where
  "big_suffix =
     \<lparr>books = [\<lparr>book_id = ''B9007199254740992'', title = Some ''Ulysses'',
                 author = ''Joyce'', publisher = [], status = ''available'',
                 book_addedDate = 12\<rparr>],
      students = [], loans = [], loanHistory = []\<rparr>"

text \<open>A catalog in which no id is B followed by digits.\<close>

definition odd_ids :: store where
  "odd_ids =
     \<lparr>books = [\<lparr>book_id = ''b12'', title = Some ''Ulysses'', author = ''Joyce'',
                 publisher = [], status = ''available'', book_addedDate = 12\<rparr>,
               \<lparr>book_id = ''B12a'', title = Some ''Emma'', author = ''Austen'',
                 publisher = [], status = ''available'', book_addedDate = 10\<rparr>,
               \<lparr>book_id = ''B'', title = Some ''Emma'', author = ''Austen'',
                 publisher = [], status = ''available'', book_addedDate = 11\<rparr>],
      students = [], loans = [], loanHistory = []\<rparr>"

text \<open>
  A store, as an import can install it, in which the book B001 is available although an
  active loan of it is on record.
\<close>

definition old_loan :: loan where
  "old_loan = \<lparr>loan_id = ''6'', bookId = ''B001'', studentId = ''20'', loanDate = 5,
                dueDate = 1209600005, loan_note = []\<rparr>"

definition stale_loan :: store where
  "stale_loan =
     \<lparr>books = [\<lparr>book_id = ''B001'', title = Some ''Emma'', author = ''Austen'',
                 publisher = [], status = ''available'', book_addedDate = 10\<rparr>],
      students = [\<lparr>student_id = ''20'', number = Fin 1, name = Some ''Kim'',
                    student_addedDate = 21\<rparr>],
      loans = [old_loan], loanHistory = []\<rparr>"

section \<open>Auxiliary facts\<close>

subsection \<open>A failing method returns the store it was given\<close>

lemma addBook_error_keeps: "fst (addBook now d s) = Inl e \<Longrightarrow> snd (addBook now d s) = s"
  by (simp add: addBook_def Let_def split: if_splits)

lemma deleteBook_error_keeps: "fst (deleteBook bid s) = Inl e \<Longrightarrow> snd (deleteBook bid s) = s"
  by (simp add: deleteBook_def split: option.splits if_splits)

lemma deleteStudent_error_keeps:
  "fst (deleteStudent sid s) = Inl e \<Longrightarrow> snd (deleteStudent sid s) = s"
  by (simp add: deleteStudent_def split: if_splits)

lemma loanBook_error_keeps:
  "fst (loanBook t1 t2 bid sid days nt s) = Inl e
    \<Longrightarrow> snd (loanBook t1 t2 bid sid days nt s) = s"
  by (simp add: loanBook_def Let_def split: option.splits if_splits)

lemma returnBook_error_keeps:
  "fst (returnBook now bid s) = Inl e \<Longrightarrow> snd (returnBook now bid s) = s"
  by (simp add: returnBook_def Let_def split: option.splits)

lemma deleteLoan_error_keeps: "fst (deleteLoan bid s) = Inl e \<Longrightarrow> snd (deleteLoan bid s) = s"
  by (simp add: deleteLoan_def split: option.splits)

lemma addStudent_succeeds: "fst (addStudent t1 t2 d s) \<noteq> Inl e"
  by (simp add: addStudent_def Let_def)

subsection \<open>The running maximum of a reduce\<close>

lemma foldl_max_eq_Max:
  fixes f :: "'a \<Rightarrow> 'b::linorder"
  shows "foldl (\<lambda>mx x. if f x > mx then f x else mx) a xs = Max (insert a (f ` set xs))"
proof (induction xs arbitrary: a)
  case Nil
  show ?case by simp
next
  case (Cons x xs)
  have "Max (insert (if a < f x then f x else a) (f ` set xs))
      = Max (insert a (insert (f x) (f ` set xs)))"
    by (cases "f ` set xs = {}") (auto simp: max_def)
  then show ?case by (simp add: Cons.IH)
qed

lemma generateStudentNumber_Max:
  "generateStudentNumber s = plus_one (Max (insert (Fin 0) (number ` set (students s))))"
  by (simp add: generateStudentNumber_def foldl_max_eq_Max)

subsection \<open>Numbers that are exact\<close>

lemma Fin_less [simp]: "Fin a < Fin b \<longleftrightarrow> a < b"
  by (auto simp: less_jsnum_def)

lemma to_double_exact: "0 \<le> i \<Longrightarrow> i \<le> 9007199254740992 \<Longrightarrow> to_double i = Fin i"
proof -
  assume "0 \<le> i" "i \<le> 9007199254740992"
  then have "nat i \<le> 9007199254740992" by linarith
  with \<open>0 \<le> i\<close> show ?thesis by (simp add: to_double_def round_nat_def)
qed

lemma plus_one_exact: "0 \<le> i \<Longrightarrow> i < 9007199254740992 \<Longrightarrow> plus_one (Fin i) = Fin (i + 1)"
  using to_double_exact [of "i + 1"] by simp

lemma number_toString_exact:
  "0 \<le> i \<Longrightarrow> i \<le> 9007199254740992 \<Longrightarrow> number_toString (Fin i) = decimal (nat i)"
proof -
  assume "0 \<le> i" "i \<le> 9007199254740992"
  then have "nat i \<le> 9007199254740992" by linarith
  with \<open>0 \<le> i\<close> show ?thesis by (simp add: nat_toString_def)
qed

lemma parseInt_exact:
  "digits_value ds \<le> 9007199254740992 \<Longrightarrow> parseInt ds = Fin (int (digits_value ds))"
  by (simp add: parseInt_def to_double_exact)

subsection \<open>Decimal digits\<close>

lemma digit_cases: "d < 10 \<Longrightarrow> d = 0 \<or> d = 1 \<or> d = 2 \<or> d = 3 \<or> d = 4 \<or> d = 5 \<or> d = 6 \<or> d = 7 \<or> d = 8 \<or> d = (9::nat)"
  by arith

lemma digit_val_digit_char: "d < 10 \<Longrightarrow> digit_val (digit_char d) = d"
  using digit_cases [of d] by (auto simp: digit_val_def digit_char_def)

lemma is_digit_digit_char: "d < 10 \<Longrightarrow> is_digit (digit_char d)"
  using digit_cases [of d] by (auto simp: is_digit_def digit_char_def)

lemma decimal_nonempty: "decimal n \<noteq> []"
  by (subst decimal.simps) simp

lemma decimal_digits: "list_all is_digit (decimal n)"
proof (induction n rule: decimal.induct)
  case (1 n)
  show ?case
    by (subst decimal.simps) (use 1 in \<open>simp add: is_digit_digit_char\<close>)
qed

lemma digits_value_snoc: "digits_value (ds @ [c]) = 10 * digits_value ds + digit_val c"
  by (simp add: digits_value_def)

lemma digits_value_decimal: "digits_value (decimal n) = n"
proof (induction n rule: decimal.induct)
  case (1 n)
  show ?case
  proof (cases "n < 10")
    case True
    then show ?thesis
      by (subst decimal.simps) (simp add: digits_value_def digit_val_digit_char)
  next
    case False
    then have "digits_value (decimal (n div 10)) = n div 10" using 1 by simp
    with False show ?thesis
      by (subst decimal.simps) (simp add: digits_value_snoc digit_val_digit_char)
  qed
qed

lemma digits_value_zeros: "digits_value (replicate k (CHR ''0'') @ ds) = digits_value ds"
proof -
  have "foldl (\<lambda>acc c. 10 * acc + digit_val c) 0 (replicate k (CHR ''0'')) = 0"
    by (induction k) (simp_all add: digit_val_def)
  then show ?thesis by (simp add: digits_value_def)
qed

lemma digits_value_padStart: "digits_value (padStart n (CHR ''0'') (decimal m)) = m"
  by (simp add: padStart_def digits_value_zeros digits_value_decimal)

lemma padStart_digits: "list_all is_digit (padStart n (CHR ''0'') (decimal m))"
proof -
  have "list_all is_digit (replicate k (CHR ''0''))" for k
    by (simp add: list_all_iff is_digit_def)
  then show ?thesis by (simp add: padStart_def decimal_digits)
qed

subsection \<open>Generated book ids\<close>

lemma match_B_digits_Some: "match_B_digits i = Some ds \<Longrightarrow> i = CHR ''B'' # ds \<and> ds = tl i"
  by (cases i) (auto split: if_splits)

lemma book_number_fold:
  assumes "\<forall>b \<in> set bs. match_B_digits (book_id b) \<noteq> None
             \<longrightarrow> digits_value (tl (book_id b)) \<le> 9007199254740992"
  shows "foldl (\<lambda>mx b. case match_B_digits (book_id b) of
                    Some ds \<Rightarrow> (let num = parseInt ds in if num > mx then num else mx)
                  | None \<Rightarrow> mx) (Fin (int a)) bs
     = Fin (int (foldl (\<lambda>mx n. if n > mx then n else mx) a
         (map (\<lambda>i. digits_value (tl i))
            (filter (\<lambda>i. match_B_digits i \<noteq> None) (map book_id bs)))))"
  using assms
proof (induction bs arbitrary: a)
  case Nil
  show ?case by simp
next
  case (Cons b bs)
  from Cons.prems have rest: "\<forall>b \<in> set bs. match_B_digits (book_id b) \<noteq> None
             \<longrightarrow> digits_value (tl (book_id b)) \<le> 9007199254740992"
    by simp
  show ?case
  proof (cases "match_B_digits (book_id b)")
    case None
    then show ?thesis by (simp add: Cons.IH [OF rest])
  next
    case (Some ds)
    define v where "v = digits_value (tl (book_id b))"
    from Some have ds: "ds = tl (book_id b)" by (simp add: match_B_digits_Some)
    from Some Cons.prems have "v \<le> 9007199254740992" by (simp add: v_def)
    then have parse: "parseInt (tl (book_id b)) = Fin (int v)"
      unfolding v_def by (rule parseInt_exact)
    have "foldl (\<lambda>mx b. case match_B_digits (book_id b) of
                    Some ds \<Rightarrow> (let num = parseInt ds in if num > mx then num else mx)
                  | None \<Rightarrow> mx) (Fin (int a)) (b # bs)
        = foldl (\<lambda>mx b. case match_B_digits (book_id b) of
                    Some ds \<Rightarrow> (let num = parseInt ds in if num > mx then num else mx)
                  | None \<Rightarrow> mx) (Fin (int (if a < v then v else a))) bs"
      using Some by (simp add: Let_def ds parse)
    also have "\<dots> = Fin (int (foldl (\<lambda>mx n. if n > mx then n else mx) (if a < v then v else a)
         (map (\<lambda>i. digits_value (tl i))
            (filter (\<lambda>i. match_B_digits i \<noteq> None) (map book_id bs)))))"
      by (rule Cons.IH [OF rest])
    also have "\<dots> = Fin (int (foldl (\<lambda>mx n. if n > mx then n else mx) a
         (map (\<lambda>i. digits_value (tl i))
            (filter (\<lambda>i. match_B_digits i \<noteq> None) (map book_id (b # bs))))))"
      using Some by (simp add: v_def)
    finally show ?thesis .
  qed
qed

lemma exact_suffixes_Max:
  assumes "exact_suffixes s"
  shows "Max (insert 0 (set (map (\<lambda>i. digits_value (tl i))
            (filter (\<lambda>i. match_B_digits i \<noteq> None) (map book_id (books s))))))
         < 9007199254740992"
proof -
  let ?N = "insert 0 (set (map (\<lambda>i. digits_value (tl i))
            (filter (\<lambda>i. match_B_digits i \<noteq> None) (map book_id (books s)))))"
  have "Max ?N \<in> ?N" by (rule Max_in) simp_all
  moreover have "n < 9007199254740992" if "n \<in> ?N" for n
    using that assms unfolding exact_suffixes_def by auto
  ultimately show ?thesis by blast
qed

lemma generateBookId_spec:
  assumes "exact_suffixes s"
  shows "generateBookId s = spec_next_book_id (map book_id (books s))"
proof -
  define nums where "nums = map (\<lambda>i. digits_value (tl i))
      (filter (\<lambda>i. match_B_digits i \<noteq> None) (map book_id (books s)))"
  define m where "m = Max (insert 0 (set nums))"
  from assms have bound: "\<forall>b \<in> set (books s). match_B_digits (book_id b) \<noteq> None
             \<longrightarrow> digits_value (tl (book_id b)) \<le> 9007199254740992"
    unfolding exact_suffixes_def by fastforce
  have "foldl (\<lambda>mx n. if n > mx then n else mx) 0 nums = m"
    using foldl_max_eq_Max [where f = "\<lambda>n::nat. n" and a = 0 and xs = nums]
    by (simp add: m_def)
  with book_number_fold [OF bound, of 0]
  have fold: "foldl (\<lambda>mx b. case match_B_digits (book_id b) of
                    Some ds \<Rightarrow> (let num = parseInt ds in if num > mx then num else mx)
                  | None \<Rightarrow> mx) (Fin 0) (books s) = Fin (int m)"
    by (simp add: nums_def)
  have small: "m < 9007199254740992"
    using exact_suffixes_Max [OF assms] by (simp add: m_def nums_def)
  then have "plus_one (Fin (int m)) = Fin (int m + 1)" by (intro plus_one_exact) simp_all
  moreover from small have "number_toString (Fin (int m + 1)) = decimal (nat (int m + 1))"
    by (intro number_toString_exact) simp_all
  moreover have "nat (int m + 1) = m + 1" by simp
  ultimately have str: "number_toString (plus_one (Fin (int m))) = decimal (m + 1)" by simp
  have lhs: "generateBookId s = CHR ''B'' # padStart 3 (CHR ''0'') (decimal (m + 1))"
    unfolding generateBookId_def Let_def fold [unfolded Let_def] str ..
  have rhs: "spec_next_book_id (map book_id (books s))
      = CHR ''B'' # padStart 3 (CHR ''0'') (decimal (m + 1))"
    unfolding spec_next_book_id_def Let_def m_def nums_def ..
  show ?thesis by (simp only: lhs rhs)
qed

lemma find_None_iff_ids: "find (\<lambda>x. f x = a) xs = None \<longleftrightarrow> a \<notin> f ` set xs"
  by (induction xs) auto

lemma find_Some_mem: "find P xs = Some x \<Longrightarrow> x \<in> set xs \<and> P x"
  by (induction xs) (auto split: if_splits)

lemma generateBookId_fresh:
  assumes "exact_suffixes s"
  shows "generateBookId s \<notin> book_id ` set (books s)"
proof
  define ids where "ids = map book_id (books s)"
  define nums where
    "nums = map (\<lambda>i. digits_value (tl i)) (filter (\<lambda>i. match_B_digits i \<noteq> None) ids)"
  define m where "m = Max (insert 0 (set nums))"
  define pad where "pad = padStart 3 (CHR ''0'') (decimal (m + 1))"
  have gen: "generateBookId s = CHR ''B'' # pad"
    by (simp only: generateBookId_spec [OF assms] spec_next_book_id_def Let_def pad_def
          m_def nums_def ids_def)
  assume "generateBookId s \<in> book_id ` set (books s)"
  then have mem: "CHR ''B'' # pad \<in> set ids"
    by (simp only: gen ids_def set_map)
  have "pad \<noteq> []" by (simp add: pad_def padStart_def decimal_nonempty)
  moreover have "list_all is_digit pad" unfolding pad_def by (rule padStart_digits)
  ultimately have "match_B_digits (CHR ''B'' # pad) \<noteq> None" by simp
  with mem have "CHR ''B'' # pad \<in> set (filter (\<lambda>i. match_B_digits i \<noteq> None) ids)"
    by simp
  then have "digits_value (tl (CHR ''B'' # pad)) \<in> set nums"
    unfolding nums_def set_map by (rule imageI)
  then have "digits_value pad \<in> set nums" by simp
  then have "digits_value pad \<le> m" unfolding m_def by simp
  moreover have "digits_value pad = m + 1" unfolding pad_def by (rule digits_value_padStart)
  ultimately show False by simp
qed

subsection \<open>Searching and removing in the arrays\<close>

lemma unique_by_key:
  "distinct (map f xs) \<Longrightarrow> x \<in> set xs \<Longrightarrow> y \<in> set xs \<Longrightarrow> f x = f y \<Longrightarrow> x = y"
  by (auto simp: distinct_map inj_on_def)

lemma findIndex_None_iff: "findIndex P xs = None \<longleftrightarrow> (\<forall>x \<in> set xs. \<not> P x)"
  by (induction xs) auto

lemma findIndex_Some:
  "findIndex P xs = Some i \<Longrightarrow>
     i < length xs \<and> P (xs ! i) \<and> find P xs = Some (xs ! i) \<and> splice1 i xs = remove_first P xs"
proof (induction xs arbitrary: i)
  case Nil
  then show ?case by simp
next
  case (Cons x xs)
  show ?case
  proof (cases "P x")
    case True
    with Cons.prems show ?thesis by (simp add: splice1_def)
  next
    case False
    with Cons.prems obtain j where j: "findIndex P xs = Some j" "i = Suc j" by auto
    from Cons.IH [OF j(1)] False j(2) show ?thesis by (simp add: splice1_def)
  qed
qed

lemma remove_first_distinct:
  "distinct (map f xs) \<Longrightarrow> remove_first (\<lambda>x. f x = a) xs = filter (\<lambda>x. f x \<noteq> a) xs"
proof (induction xs)
  case Nil
  show ?case by simp
next
  case (Cons x xs)
  show ?case
  proof (cases "f x = a")
    case True
    with Cons.prems have "\<forall>y \<in> set xs. f y \<noteq> a" by (auto simp: image_iff)
    then have "filter (\<lambda>x. f x \<noteq> a) xs = xs" by (simp add: filter_id_conv)
    with True show ?thesis by simp
  next
    case False
    with Cons show ?thesis by simp
  qed
qed

lemma remove_first_remove1:
  "find P xs = Some x \<Longrightarrow> remove_first P xs = remove1 x xs"
proof (induction xs)
  case Nil
  then show ?case by simp
next
  case (Cons y ys)
  show ?case
  proof (cases "P y")
    case True
    with Cons.prems show ?thesis by simp
  next
    case False
    with Cons.prems have "find P ys = Some x" by simp
    moreover from this have "P x" using find_Some_mem by fastforce
    ultimately show ?thesis using False Cons.IH by auto
  qed
qed

lemma find_Some_findIndex: "find P xs = Some x \<Longrightarrow> \<exists>i. findIndex P xs = Some i"
  by (induction xs) (auto split: if_splits)

lemma findIndex_append_fresh:
  "\<forall>x \<in> set xs. \<not> P x \<Longrightarrow> P y \<Longrightarrow> findIndex P (xs @ [y]) = Some (length xs)"
  by (induction xs) simp_all

lemma splice1_last: "splice1 (length xs) (xs @ [y]) = xs"
  by (simp add: splice1_def)

lemma count_one_iff:
  "distinct (map f xs) \<Longrightarrow> (length (filter (\<lambda>x. f x = a) xs) = 1) = (a \<in> f ` set xs)"
proof (induction xs)
  case Nil
  show ?case by simp
next
  case (Cons x xs)
  then have "f x \<notin> f ` set xs" by simp
  then have "filter (\<lambda>y. f y = f x) xs = []" by (auto simp: filter_empty_conv image_iff)
  with Cons show ?case by auto
qed

subsection \<open>Assigning the status of a book\<close>

lemma set_status_ids: "map book_id (set_status bid v bs) = map book_id bs"
  by (induction bs) simp_all

lemma set_status_map:
  "distinct (map book_id bs) \<Longrightarrow>
     set_status bid v bs = map (\<lambda>b. if book_id b = bid then b\<lparr>status := v\<rparr> else b) bs"
proof (induction bs)
  case Nil
  show ?case by simp
next
  case (Cons b bs)
  show ?case
  proof (cases "book_id b = bid")
    case True
    with Cons.prems have "bid \<notin> book_id ` set bs" by auto
    then have "map (\<lambda>b. if book_id b = bid then b\<lparr>status := v\<rparr> else b) bs = bs"
      by (induction bs) auto
    with True show ?thesis by simp
  next
    case False
    with Cons show ?thesis by simp
  qed
qed

lemma set_status_set:
  "distinct (map book_id bs) \<Longrightarrow>
     set (set_status bid v bs) = (\<lambda>b. if book_id b = bid then b\<lparr>status := v\<rparr> else b) ` set bs"
  by (simp add: set_status_map)

lemma find_set_status:
  "find (\<lambda>b. book_id b = bid) (set_status bid v bs)
     = map_option (\<lambda>b. b\<lparr>status := v\<rparr>) (find (\<lambda>b. book_id b = bid) bs)"
  by (induction bs) simp_all

lemma set_status_undo:
  "find (\<lambda>b. book_id b = bid) bs = Some b \<Longrightarrow> status b = v
     \<Longrightarrow> set_status bid v (set_status bid w bs) = bs"
  by (induction bs) (auto split: if_splits)

subsection \<open>The loop of the bulk registration\<close>

lemma bulk_loop_buckets:
  "failed (fst (bulk_loop clk k ds res s)) = failed res
   \<and> map name (success (fst (bulk_loop clk k ds res s)))
       = map name (success res) @ map data_name ds
   \<and> map student_id (success (fst (bulk_loop clk k ds res s)))
       = map student_id (success res) @ map (\<lambda>i. decimal (clk (k + 2 * i))) [0..<length ds]"
proof (induction ds arbitrary: k res s)
  case Nil
  show ?case by simp
next
  case (Cons d ds)
  have shift: "map (\<lambda>i. decimal (clk (k + 2 * i))) [0..<length (d # ds)]
       = decimal (clk k) # map (\<lambda>i. decimal (clk (k + 2 + 2 * i))) [0..<length ds]"
    by (simp add: upt_conv_Cons map_Suc_upt [symmetric] del: upt_Suc)
  show ?case
    unfolding shift
    by (simp add: addStudent_def Let_def Cons.IH)
qed

lemma bulk_loop_roster:
  "\<exists>news. success (fst (bulk_loop clk k ds res s)) = success res @ news
      \<and> mset (students (snd (bulk_loop clk k ds res s))) = mset (students s) + mset news"
proof (induction ds arbitrary: k res s)
  case Nil
  show ?case by simp
next
  case (Cons d ds)
  define st where "st = \<lparr>student_id = decimal (clk k),
      number = or_number (data_number d) (generateStudentNumber s),
      name = data_name d, student_addedDate = clk (k + 1)\<rparr>"
  define s' where "s' = s\<lparr>students := sort_key number (students s @ [st])\<rparr>"
  define res' where "res' = res\<lparr>success := success res @ [st]\<rparr>"
  have step: "bulk_loop clk k (d # ds) res s = bulk_loop clk (k + 2) ds res' s'"
    by (simp add: addStudent_def Let_def st_def s'_def res'_def)
  from Cons.IH [of "k + 2" res' s'] obtain news where
    "success (fst (bulk_loop clk (k + 2) ds res' s')) = success res' @ news"
    "mset (students (snd (bulk_loop clk (k + 2) ds res' s'))) = mset (students s') + mset news"
    by blast
  then have "success (fst (bulk_loop clk k (d # ds) res s)) = success res @ (st # news)
      \<and> mset (students (snd (bulk_loop clk k (d # ds) res s)))
          = mset (students s) + mset (st # news)"
    unfolding step by (simp add: res'_def s'_def)
  then show ?case by blast
qed

lemma bulk_loop_keeps_history:
  "loanHistory (snd (bulk_loop clk k ds res s)) = loanHistory s"
  by (induction ds arbitrary: k res s) (simp_all add: addStudent_def Let_def)

subsection \<open>What a successful loan does\<close>

lemma loanBook_success:
  assumes "fst (loanBook t1 t2 bid sid days nt s) = Inr l"
  obtains b st due where "getBook bid s = Some b" "status b \<noteq> ''loaned''"
    "getStudent sid s = Some st" "due_instant t1 days = Some due"
    "l = \<lparr>loan_id = decimal t2, bookId = bid, studentId = sid, loanDate = t1, dueDate = due,
          loan_note = (case nt of None \<Rightarrow> [] | Some v \<Rightarrow> v)\<rparr>"
    "snd (loanBook t1 t2 bid sid days nt s)
       = s\<lparr>loans := loans s @ [l], books := set_status bid ''loaned'' (books s)\<rparr>"
  using assms by (auto simp: loanBook_def Let_def split: option.splits if_splits)

subsection \<open>The invariant holds in every reachable store\<close>

lemma store_invI:
  assumes "distinct (map book_id (books s))"
    and "distinct (map bookId (loans s))"
    and "\<And>l. l \<in> set (loans s) \<Longrightarrow> \<exists>b \<in> set (books s). book_id b = bookId l \<and> status b = ''loaned''"
    and "\<And>b. b \<in> set (books s) \<Longrightarrow> status b = ''loaned'' \<Longrightarrow> book_id b \<in> bookId ` set (loans s)"
    and "\<And>b. b \<in> set (books s) \<Longrightarrow> status b = ''loaned'' \<or> status b = ''available''"
  shows "store_inv s"
  using assms unfolding store_inv_def by blast

lemma inv_lent_has_book:
  "store_inv s \<Longrightarrow> l \<in> set (loans s) \<Longrightarrow> b \<in> set (books s) \<Longrightarrow> book_id b = bookId l
     \<Longrightarrow> status b = ''loaned''"
proof -
  assume inv: "store_inv s" and l: "l \<in> set (loans s)" and b: "b \<in> set (books s)"
    and eq: "book_id b = bookId l"
  from inv l obtain b' where b': "b' \<in> set (books s)" "book_id b' = bookId l" "status b' = ''loaned''"
    unfolding store_inv_def by blast
  from inv have "distinct (map book_id (books s))" unfolding store_inv_def by simp
  from unique_by_key [OF this b b'(1)] eq b'(2) have "b = b'" by simp
  with b'(3) show ?thesis by simp
qed

lemma inv_addBook: "store_inv s \<Longrightarrow> store_inv (snd (addBook now d s))"
  unfolding store_inv_def addBook_def Let_def
  by (auto simp: find_None_iff_ids)

lemma inv_deleteBook: "store_inv s \<Longrightarrow> store_inv (snd (deleteBook bid s))"
proof -
  assume inv: "store_inv s"
  show ?thesis
  proof (cases "fst (deleteBook bid s)")
    case (Inl e)
    then have "snd (deleteBook bid s) = s"
      by (simp add: deleteBook_def split: option.splits if_splits)
    with inv show ?thesis by simp
  next
    case (Inr u)
    then have after: "snd (deleteBook bid s) = s\<lparr>books := filter (\<lambda>x. book_id x \<noteq> bid) (books s)\<rparr>"
      by (simp add: deleteBook_def split: option.splits if_splits)
    have free: "status b \<noteq> ''loaned''" if "b \<in> set (books s)" "book_id b = bid" for b
    proof (cases "find (\<lambda>b. book_id b = bid) (books s)")
      case None
      with that show ?thesis by (auto simp: find_None_iff_ids)
    next
      case (Some b')
      with Inr have "status b' \<noteq> ''loaned''"
        by (simp add: deleteBook_def split: if_splits)
      moreover from Some have "b' \<in> set (books s)" "book_id b' = bid"
        using find_Some_mem [of "\<lambda>b. book_id b = bid"] by auto
      moreover from inv have "distinct (map book_id (books s))" unfolding store_inv_def by simp
      ultimately show ?thesis using that unique_by_key [of book_id "books s" b b'] by auto
    qed
    have other: "bookId l \<noteq> bid" if "l \<in> set (loans s)" for l
    proof
      assume "bookId l = bid"
      from inv that obtain b where "b \<in> set (books s)" "book_id b = bookId l" "status b = ''loaned''"
        unfolding store_inv_def by blast
      with free \<open>bookId l = bid\<close> show False by auto
    qed
    let ?s' = "s\<lparr>books := filter (\<lambda>x. book_id x \<noteq> bid) (books s)\<rparr>"
    from inv have dist: "distinct (map book_id (books s))"
      and distl: "distinct (map bookId (loans s))"
      and lent: "\<And>l. l \<in> set (loans s) \<Longrightarrow> \<exists>b \<in> set (books s). book_id b = bookId l \<and> status b = ''loaned''"
      and has: "\<And>b. b \<in> set (books s) \<Longrightarrow> status b = ''loaned'' \<Longrightarrow> book_id b \<in> bookId ` set (loans s)"
      and two: "\<And>b. b \<in> set (books s) \<Longrightarrow> status b = ''loaned'' \<or> status b = ''available''"
      unfolding store_inv_def by blast+
    have "store_inv ?s'"
    proof (rule store_invI)
      show "distinct (map book_id (books ?s'))" using dist by (simp add: distinct_map_filter)
      show "distinct (map bookId (loans ?s'))" using distl by simp
      show "\<exists>b \<in> set (books ?s'). book_id b = bookId l \<and> status b = ''loaned''"
        if "l \<in> set (loans ?s')" for l
      proof -
        from that have l: "l \<in> set (loans s)" by simp
        from lent [OF l] obtain b0 where b0: "b0 \<in> set (books s)" "book_id b0 = bookId l"
          "status b0 = ''loaned''" by blast
        with other [OF l] have "b0 \<in> set (books ?s')" by simp
        with b0 show ?thesis by blast
      qed
      show "book_id b \<in> bookId ` set (loans ?s')"
        if "b \<in> set (books ?s')" "status b = ''loaned''" for b
        using that has [of b] by simp
      show "status b = ''loaned'' \<or> status b = ''available''" if "b \<in> set (books ?s')" for b
        using that two [of b] by simp
    qed
    with after show ?thesis by simp
  qed
qed

lemma inv_addStudent: "store_inv s \<Longrightarrow> store_inv (snd (addStudent t1 t2 d s))"
  unfolding store_inv_def addStudent_def Let_def by simp

lemma inv_deleteStudent: "store_inv s \<Longrightarrow> store_inv (snd (deleteStudent sid s))"
  unfolding store_inv_def deleteStudent_def by simp

lemma inv_loanBook: "store_inv s \<Longrightarrow> store_inv (snd (loanBook t1 t2 bid sid days nt s))"
proof -
  assume inv: "store_inv s"
  show ?thesis
  proof (cases "fst (loanBook t1 t2 bid sid days nt s)")
    case (Inl e)
    then have "snd (loanBook t1 t2 bid sid days nt s) = s"
      by (simp add: loanBook_def Let_def split: option.splits if_splits)
    with inv show ?thesis by simp
  next
    case (Inr l)
    let ?g = "\<lambda>b. if book_id b = bid then b\<lparr>status := ''loaned''\<rparr> else b"
    let ?s' = "s\<lparr>loans := loans s @ [l], books := set_status bid ''loaned'' (books s)\<rparr>"
    from Inr obtain b where b: "getBook bid s = Some b" "status b \<noteq> ''loaned''"
      and l: "bookId l = bid"
      and after: "snd (loanBook t1 t2 bid sid days nt s) = ?s'"
      by (auto simp: loanBook_def Let_def split: option.splits if_splits)
    from b(1) have bmem: "b \<in> set (books s)" "book_id b = bid"
      using find_Some_mem [of "\<lambda>b. book_id b = bid"] by (auto simp: getBook_def)
    from inv have dist: "distinct (map book_id (books s))"
      and distl: "distinct (map bookId (loans s))"
      and lent: "\<And>l. l \<in> set (loans s) \<Longrightarrow> \<exists>b \<in> set (books s). book_id b = bookId l \<and> status b = ''loaned''"
      and has: "\<And>b. b \<in> set (books s) \<Longrightarrow> status b = ''loaned'' \<Longrightarrow> book_id b \<in> bookId ` set (loans s)"
      and two: "\<And>b. b \<in> set (books s) \<Longrightarrow> status b = ''loaned'' \<or> status b = ''available''"
      unfolding store_inv_def by blast+
    have bs': "set (books ?s') = ?g ` set (books s)"
      using set_status_set [OF dist] by simp
    have fresh: "bookId l' \<noteq> bid" if "l' \<in> set (loans s)" for l'
      using inv_lent_has_book [OF inv that bmem(1)] bmem(2) b(2) by auto
    have "store_inv ?s'"
    proof (rule store_invI)
      show "distinct (map book_id (books ?s'))" using dist by (simp add: set_status_ids)
      show "distinct (map bookId (loans ?s'))"
      proof -
        from fresh have "bid \<notin> bookId ` set (loans s)" by blast
        with distl l show ?thesis by simp
      qed
      show "\<exists>b \<in> set (books ?s'). book_id b = bookId l' \<and> status b = ''loaned''"
        if "l' \<in> set (loans ?s')" for l'
      proof (cases "l' = l")
        case True
        have "?g b \<in> set (books ?s')" using bmem(1) unfolding bs' by (rule imageI)
        moreover have "book_id (?g b) = bookId l'" "status (?g b) = ''loaned''"
          using bmem(2) l True by simp_all
        ultimately show ?thesis by blast
      next
        case False
        with that have "l' \<in> set (loans s)" by simp
        from lent [OF this] obtain b0 where b0: "b0 \<in> set (books s)" "book_id b0 = bookId l'"
          "status b0 = ''loaned''" by blast
        have "?g b0 \<in> set (books ?s')" using b0(1) unfolding bs' by (rule imageI)
        moreover have "book_id (?g b0) = bookId l'" "status (?g b0) = ''loaned''"
          using b0 by simp_all
        ultimately show ?thesis by blast
      qed
      show "book_id b' \<in> bookId ` set (loans ?s')"
        if "b' \<in> set (books ?s')" "status b' = ''loaned''" for b'
      proof -
        from that(1) obtain b0 where b0: "b0 \<in> set (books s)" "b' = ?g b0"
          unfolding bs' by blast
        show ?thesis
        proof (cases "book_id b0 = bid")
          case True
          with b0(2) l show ?thesis by simp
        next
          case False
          with b0 that(2) has [of b0] show ?thesis by auto
        qed
      qed
      show "status b' = ''loaned'' \<or> status b' = ''available''" if "b' \<in> set (books ?s')" for b'
      proof -
        from that obtain b0 where b0: "b0 \<in> set (books s)" "b' = ?g b0"
          unfolding bs' by blast
        with two [of b0] show ?thesis by auto
      qed
    qed
    with after show ?thesis by simp
  qed
qed

lemma inv_remove_loan:
  assumes inv: "store_inv s" and found: "findIndex (\<lambda>l. bookId l = bid) (loans s) = Some i"
    and L: "loans s' = splice1 i (loans s)"
    and B: "books s' = set_status bid ''available'' (books s)"
  shows "store_inv s'"
proof -
  let ?g = "\<lambda>b. if book_id b = bid then b\<lparr>status := ''available''\<rparr> else b"
  from inv have dist: "distinct (map book_id (books s))"
    and distl: "distinct (map bookId (loans s))"
    and lent: "\<And>l. l \<in> set (loans s) \<Longrightarrow> \<exists>b \<in> set (books s). book_id b = bookId l \<and> status b = ''loaned''"
    and has: "\<And>b. b \<in> set (books s) \<Longrightarrow> status b = ''loaned'' \<Longrightarrow> book_id b \<in> bookId ` set (loans s)"
    and two: "\<And>b. b \<in> set (books s) \<Longrightarrow> status b = ''loaned'' \<or> status b = ''available''"
    unfolding store_inv_def by blast+
  have sp: "loans s' = filter (\<lambda>l. bookId l \<noteq> bid) (loans s)"
    using findIndex_Some [OF found] remove_first_distinct [OF distl] L by simp
  have bs': "set (books s') = ?g ` set (books s)"
    using set_status_set [OF dist] B by simp
  show ?thesis
  proof (rule store_invI)
    show "distinct (map book_id (books s'))" using dist B by (simp add: set_status_ids)
    show "distinct (map bookId (loans s'))" unfolding sp using distl by (simp add: distinct_map_filter)
    show "\<exists>b \<in> set (books s'). book_id b = bookId l' \<and> status b = ''loaned''"
      if "l' \<in> set (loans s')" for l'
    proof -
      from that have l': "l' \<in> set (loans s)" "bookId l' \<noteq> bid" unfolding sp by simp_all
      from lent [OF l'(1)] obtain b0 where b0: "b0 \<in> set (books s)" "book_id b0 = bookId l'"
        "status b0 = ''loaned''" by blast
      have "?g b0 \<in> set (books s')" using b0(1) unfolding bs' by (rule imageI)
      moreover have "book_id (?g b0) = bookId l'" "status (?g b0) = ''loaned''"
        using b0 l'(2) by simp_all
      ultimately show ?thesis by blast
    qed
    show "book_id b' \<in> bookId ` set (loans s')"
      if "b' \<in> set (books s')" "status b' = ''loaned''" for b'
    proof -
      from that(1) obtain b0 where b0: "b0 \<in> set (books s)" "b' = ?g b0"
        unfolding bs' by blast
      with that(2) have ne: "book_id b0 \<noteq> bid" and eq: "b' = b0" by (auto split: if_splits)
      from has [of b0] b0(1) that(2) eq obtain l0 where "l0 \<in> set (loans s)" "bookId l0 = book_id b0"
        by auto
      with ne have "l0 \<in> set (loans s')" unfolding sp by simp
      with \<open>bookId l0 = book_id b0\<close> eq show ?thesis by force
    qed
    show "status b' = ''loaned'' \<or> status b' = ''available''" if "b' \<in> set (books s')" for b'
    proof -
      from that obtain b0 where b0: "b0 \<in> set (books s)" "b' = ?g b0"
        unfolding bs' by blast
      with two [of b0] show ?thesis by auto
    qed
  qed
qed

lemma inv_returnBook: "store_inv s \<Longrightarrow> store_inv (snd (returnBook now bid s))"
proof (cases "findIndex (\<lambda>l. bookId l = bid) (loans s)")
  case None
  assume "store_inv s"
  with None show ?thesis by (simp add: returnBook_def)
next
  case (Some i)
  assume "store_inv s"
  from this Some show ?thesis
    by (rule inv_remove_loan) (simp_all add: returnBook_def Let_def Some)
qed

lemma inv_deleteLoan: "store_inv s \<Longrightarrow> store_inv (snd (deleteLoan bid s))"
proof (cases "findIndex (\<lambda>l. bookId l = bid) (loans s)")
  case None
  assume "store_inv s"
  with None show ?thesis by (simp add: deleteLoan_def)
next
  case (Some i)
  assume "store_inv s"
  from this Some show ?thesis
    by (rule inv_remove_loan) (simp_all add: deleteLoan_def Some)
qed

lemma inv_run: "store_inv s \<Longrightarrow> store_inv (snd (run c s))"
  by (cases c)
     (simp_all add: outcome_def inv_addBook inv_deleteBook inv_addStudent inv_deleteStudent
        inv_loanBook inv_returnBook inv_deleteLoan)

lemma reachable_inv: "reachable s \<Longrightarrow> store_inv s"
proof (induction rule: reachable.induct)
  case reachable_empty
  show ?case by (simp add: store_inv_def empty_store_def)
next
  case (reachable_run s c)
  then show ?case by (simp add: inv_run)
qed

subsection \<open>Only the return writes history\<close>

lemma run_keeps_history:
  "\<forall>t b. c \<noteq> ReturnBook t b \<Longrightarrow> loanHistory (snd (run c s)) = loanHistory s"
  by (cases c)
     (auto simp: outcome_def addBook_def deleteBook_def addStudent_def deleteStudent_def
        loanBook_def deleteLoan_def Let_def split: option.splits if_splits)

subsection \<open>The example stores\<close>

lemma one_book_value:
  "one_book = \<lparr>books = [\<lparr>book_id = ''B001'', title = Some ''Emma'', author = ''Austen'',
                      publisher = [], status = ''available'', book_addedDate = 10\<rparr>],
           students = [\<lparr>student_id = ''20'', number = Fin 1, name = Some ''Kim'',
                         student_addedDate = 21\<rparr>],
           loans = [], loanHistory = []\<rparr>"
  by (simp add: one_book_def emma_def kim_def outcome_def addBook_def addStudent_def
        generateBookId_def generateStudentNumber_def empty_store_def Let_def padStart_def
        to_double_exact nat_toString_def numeral_2_eq_2 decimal.simps digit_char_def)

lemma loan_at_one_book:
  "loanBook 30 31 ''B001'' ''20'' DaysOmitted None one_book
     = (Inr kims_loan,
        one_book\<lparr>loans := [kims_loan],
             books := [\<lparr>book_id = ''B001'', title = Some ''Emma'', author = ''Austen'',
                        publisher = [], status = ''loaned'', book_addedDate = 10\<rparr>]\<rparr>)"
  by (simp add: one_book_value loanBook_def getBook_def getStudent_def due_instant_def
        msPerDay_def maxTime_def kims_loan_def Let_def decimal.simps digit_char_def)

lemma one_book_lent_value:
  "one_book_lent = \<lparr>books = [\<lparr>book_id = ''B001'', title = Some ''Emma'', author = ''Austen'',
                      publisher = [], status = ''loaned'', book_addedDate = 10\<rparr>],
           students = [\<lparr>student_id = ''20'', number = Fin 1, name = Some ''Kim'',
                         student_addedDate = 21\<rparr>],
           loans = [kims_loan], loanHistory = []\<rparr>"
  by (simp add: one_book_lent_def outcome_def loan_at_one_book) (simp add: one_book_value)

lemma reachable_one_book: "reachable one_book"
  unfolding one_book_def by (intro reachable.intros)

lemma reachable_one_book_lent: "reachable one_book_lent"
  unfolding one_book_lent_def by (intro reachable.intros reachable_one_book)

lemma decimal_1700000000000: "decimal 1700000000000 = ''1700000000000''"
  by (simp add: decimal.simps digit_char_def)

lemma bit_length_above_2_53: "bit_length 9007199254740993 = 54"
  by (simp add: bit_length.simps)

lemma round_above_2_53: "round_nat 9007199254740993 = Some 9007199254740992"
  by (simp add: round_nat_def bit_length_above_2_53 Let_def)

lemma plus_one_at_2_53: "plus_one (Fin 9007199254740992) = Fin 9007199254740992"
  by (simp add: to_double_def round_above_2_53)

lemma value_2_53: "digits_value ''9007199254740992'' = 9007199254740992"
  by (simp add: digits_value_def digit_val_def)

lemma set_status_twice: "set_status bid v (set_status bid w bs) = set_status bid v bs"
  by (induction bs) simp_all

lemma set_status_same:
  "find (\<lambda>b. book_id b = bid) bs = Some b \<Longrightarrow> status b = v \<Longrightarrow> set_status bid v bs = bs"
  by (induction bs) (auto split: if_splits)

section \<open>The claims\<close>

subsection \<open>C1: a book is marked loaned exactly when it has one active loan\<close>

text \<open>
  Claim C1. In every store reachable from the empty store by addBook, deleteBook,
  addStudent, deleteStudent, loanBook, returnBook and deleteLoan, a book of the catalog has
  the status loaned if and only if exactly one active loan carries its id.
\<close>

theorem loaned_iff_one_loan:
  "reachable s \<Longrightarrow> b \<in> set (books s) \<Longrightarrow>
     (status b = ''loaned'') = (length (filter (\<lambda>l. bookId l = book_id b) (loans s)) = 1)"
proof -
  assume "reachable s" and b: "b \<in> set (books s)"
  then have inv: "store_inv s" by (simp add: reachable_inv)
  then have distl: "distinct (map bookId (loans s))" unfolding store_inv_def by simp
  have "(status b = ''loaned'') = (book_id b \<in> bookId ` set (loans s))"
  proof
    assume "status b = ''loaned''"
    with inv b show "book_id b \<in> bookId ` set (loans s)" unfolding store_inv_def by blast
  next
    assume "book_id b \<in> bookId ` set (loans s)"
    then obtain l where "l \<in> set (loans s)" "book_id b = bookId l" by auto
    with inv_lent_has_book [OF inv _ b] show "status b = ''loaned''" by simp
  qed
  with count_one_iff [OF distl, of "book_id b"] show ?thesis by simp
qed

theorem loaned_iff_one_loan_witness:
  "reachable one_book_lent
   \<and> \<lparr>book_id = ''B001'', title = Some ''Emma'', author = ''Austen'', publisher = [],
       status = ''loaned'', book_addedDate = 10\<rparr> \<in> set (books one_book_lent)
   \<and> length (filter (\<lambda>l. bookId l = ''B001'') (loans one_book_lent)) = 1"
  using loaned_iff_one_loan [OF reachable_one_book_lent,
      of "\<lparr>book_id = ''B001'', title = Some ''Emma'', author = ''Austen'', publisher = [],
           status = ''loaned'', book_addedDate = 10\<rparr>"] reachable_one_book_lent
  by (simp add: one_book_lent_value)

subsection \<open>C2: one loan per book at a time\<close>

text \<open>
  Claim C2, as amended. After loanBook(B, S1) has succeeded, the next loanBook(B, S2) fails
  for every S2: with BookAlreadyLoanedError when S2 is the id of a student of the roster
  (S1 included), and with StudentNotFoundError when it is not, because the student is
  looked up before the status of the book is tested. After returnBook(B) has succeeded, the
  next loanBook(B, S2) for a book and a student that exist, and for a period that gives a
  valid due date, succeeds and returns the new loan of B to S2.
\<close>

theorem second_loan_refused_until_return:
  "(fst (loanBook t1 t2 bid sid1 days1 nt1 s) = Inr l \<longrightarrow>
      fst (loanBook t3 t4 bid sid2 days2 nt2 (snd (loanBook t1 t2 bid sid1 days1 nt1 s)))
        = Inl (if getStudent sid2 s = None then StudentNotFoundError
               else BookAlreadyLoanedError))
   \<and> (fst (returnBook t5 bid s) = Inr l'
       \<and> getBook bid (snd (returnBook t5 bid s)) \<noteq> None
       \<and> getStudent sid2 (snd (returnBook t5 bid s)) \<noteq> None
       \<and> due_instant t6 days3 = Some due \<longrightarrow>
      fst (loanBook t6 t7 bid sid2 days3 nt3 (snd (returnBook t5 bid s)))
        = Inr \<lparr>loan_id = decimal t7, bookId = bid, studentId = sid2, loanDate = t6,
               dueDate = due, loan_note = (case nt3 of None \<Rightarrow> [] | Some v \<Rightarrow> v)\<rparr>)"
proof (intro conjI impI)
  assume "fst (loanBook t1 t2 bid sid1 days1 nt1 s) = Inr l"
  then obtain b where b: "getBook bid s = Some b"
    and s1: "snd (loanBook t1 t2 bid sid1 days1 nt1 s)
       = s\<lparr>loans := loans s @ [l], books := set_status bid ''loaned'' (books s)\<rparr>"
    by (rule loanBook_success)
  from b show "fst (loanBook t3 t4 bid sid2 days2 nt2 (snd (loanBook t1 t2 bid sid1 days1 nt1 s)))
        = Inl (if getStudent sid2 s = None then StudentNotFoundError
               else BookAlreadyLoanedError)"
    unfolding s1
    by (simp add: loanBook_def getBook_def getStudent_def find_set_status split: option.splits)
next
  assume a: "fst (returnBook t5 bid s) = Inr l'
       \<and> getBook bid (snd (returnBook t5 bid s)) \<noteq> None
       \<and> getStudent sid2 (snd (returnBook t5 bid s)) \<noteq> None
       \<and> due_instant t6 days3 = Some due"
  then obtain i where s2: "snd (returnBook t5 bid s)
      = s\<lparr>loanHistory := loanHistory s @ [close_loan (loans s ! i) t5],
          loans := splice1 i (loans s), books := set_status bid ''available'' (books s)\<rparr>"
    by (auto simp: returnBook_def Let_def split: option.splits)
  from a show "fst (loanBook t6 t7 bid sid2 days3 nt3 (snd (returnBook t5 bid s)))
        = Inr \<lparr>loan_id = decimal t7, bookId = bid, studentId = sid2, loanDate = t6,
               dueDate = due, loan_note = (case nt3 of None \<Rightarrow> [] | Some v \<Rightarrow> v)\<rparr>"
    unfolding s2
    by (auto simp: loanBook_def getBook_def getStudent_def find_set_status Let_def
          split: option.splits)
qed

theorem second_loan_refused_until_return_witness:
  "fst (loanBook 30 31 ''B001'' ''20'' DaysOmitted None one_book) = Inr kims_loan
   \<and> fst (loanBook 40 41 ''B001'' ''20'' DaysOmitted None
        (snd (loanBook 30 31 ''B001'' ''20'' DaysOmitted None one_book)))
       = Inl BookAlreadyLoanedError
   \<and> fst (returnBook 50 ''B001'' one_book_lent) = Inr kims_loan
   \<and> getBook ''B001'' (snd (returnBook 50 ''B001'' one_book_lent)) \<noteq> None
   \<and> getStudent ''20'' (snd (returnBook 50 ''B001'' one_book_lent)) \<noteq> None
   \<and> due_instant 60 DaysOmitted = Some 1209600060
   \<and> fst (loanBook 60 61 ''B001'' ''20'' DaysOmitted None (snd (returnBook 50 ''B001'' one_book_lent)))
       = Inr \<lparr>loan_id = ''61'', bookId = ''B001'', studentId = ''20'', loanDate = 60,
              dueDate = 1209600060, loan_note = []\<rparr>"
proof -
  have ret: "returnBook 50 ''B001'' one_book_lent
      = (Inr kims_loan, one_book\<lparr>loanHistory := [close_loan kims_loan 50]\<rparr>)"
    by (simp add: one_book_lent_value one_book_value returnBook_def kims_loan_def splice1_def Let_def)
  have due: "due_instant 60 DaysOmitted = Some 1209600060"
    by (simp add: due_instant_def msPerDay_def maxTime_def)
  have d61: "decimal 61 = ''61''" by (simp add: decimal.simps digit_char_def)
  have hyp: "fst (returnBook 50 ''B001'' one_book_lent) = Inr kims_loan
       \<and> getBook ''B001'' (snd (returnBook 50 ''B001'' one_book_lent)) \<noteq> None
       \<and> getStudent ''20'' (snd (returnBook 50 ''B001'' one_book_lent)) \<noteq> None
       \<and> due_instant 60 DaysOmitted = Some 1209600060"
    by (simp add: ret due) (simp add: one_book_value getBook_def getStudent_def)
  from second_loan_refused_until_return [where s = one_book and bid = "''B001''" and ?t1.0 = 30
      and ?t2.0 = 31 and ?sid1.0 = "''20''" and ?days1.0 = DaysOmitted and ?nt1.0 = None
      and l = kims_loan and ?t3.0 = 40 and ?t4.0 = 41 and ?sid2.0 = "''20''" and ?days2.0 = DaysOmitted
      and ?nt2.0 = None, THEN conjunct1]
  have first: "fst (loanBook 40 41 ''B001'' ''20'' DaysOmitted None
        (snd (loanBook 30 31 ''B001'' ''20'' DaysOmitted None one_book)))
       = Inl BookAlreadyLoanedError"
    by (simp add: loan_at_one_book) (simp add: one_book_value getStudent_def)
  from second_loan_refused_until_return [where s = one_book_lent and bid = "''B001''" and ?t5.0 = 50
      and l' = kims_loan and ?sid2.0 = "''20''" and ?t6.0 = 60 and ?t7.0 = 61 and ?days3.0 = DaysOmitted
      and due = 1209600060 and ?nt3.0 = None, THEN conjunct2] hyp
  have second: "fst (loanBook 60 61 ''B001'' ''20'' DaysOmitted None
        (snd (returnBook 50 ''B001'' one_book_lent)))
       = Inr \<lparr>loan_id = ''61'', bookId = ''B001'', studentId = ''20'', loanDate = 60,
              dueDate = 1209600060, loan_note = []\<rparr>"
    by (simp add: d61)
  from first second hyp show ?thesis by (simp add: loan_at_one_book)
qed

text \<open>
  The claim as it was stated, BookAlreadyLoanedError for every S2, fails for an S2 that is
  no student of the roster.
\<close>

theorem second_loan_counterexample:
  "fst (loanBook 30 31 ''B001'' ''20'' DaysOmitted None one_book) = Inr kims_loan
   \<and> fst (loanBook 40 41 ''B001'' ''99'' DaysOmitted None
        (snd (loanBook 30 31 ''B001'' ''20'' DaysOmitted None one_book)))
       = Inl StudentNotFoundError"
  by (simp add: loan_at_one_book) (simp add: one_book_value loanBook_def getBook_def getStudent_def)

subsection \<open>C3: a loan followed by its return\<close>

text \<open>
  Claim C3, as amended. Let loanBook(B, S) succeed (B and S exist and B is not marked
  loaned) in a store that has no active loan of B on record, as is the case in every store
  the operations reach. Then returnBook(B) succeeds with the loan just made, B is available,
  no active loan of B is left, and the history has gained exactly one entry, the closed
  loan; its loanDate is the clock reading of the loan and its returnDate the clock reading
  of the return, so that returnDate is at least loanDate exactly when the clock has not
  been set back between the two calls. Students and loans are what they were before the
  loan; so are the books, but for the status of B, which is now available (in a reachable
  store it was before, and the books are unchanged as well).
\<close>

theorem loan_then_return_roundtrip:
  assumes "fst (loanBook t1 t2 bid sid days nt s) = Inr l"
    and "reachable s \<or> bid \<notin> bookId ` set (loans s)"
    and "s2 = snd (returnBook t3 bid (snd (loanBook t1 t2 bid sid days nt s)))"
  shows "fst (returnBook t3 bid (snd (loanBook t1 t2 bid sid days nt s))) = Inr l
    \<and> map_option status (getBook bid s2) = Some ''available''
    \<and> bid \<notin> bookId ` set (loans s2)
    \<and> loanHistory s2 = loanHistory s @ [close_loan l t3]
    \<and> loanDate (close_loan l t3) = t1
    \<and> returnDate (close_loan l t3) = t3
    \<and> (loanDate (close_loan l t3) \<le> returnDate (close_loan l t3)) = (t1 \<le> t3)
    \<and> books s2 = set_status bid ''available'' (books s)
    \<and> (reachable s \<longrightarrow> books s2 = books s)
    \<and> students s2 = students s
    \<and> loans s2 = loans s"
proof -
  from assms(1) obtain b where b: "getBook bid s = Some b" "status b \<noteq> ''loaned''"
    and l: "bookId l = bid" "loanDate l = t1"
    and s1: "snd (loanBook t1 t2 bid sid days nt s)
       = s\<lparr>loans := loans s @ [l], books := set_status bid ''loaned'' (books s)\<rparr>"
    by (rule loanBook_success) auto
  from b(1) have bmem: "b \<in> set (books s)" "book_id b = bid"
    using find_Some_mem [of "\<lambda>b. book_id b = bid"] by (auto simp: getBook_def)
  have fresh: "\<forall>l' \<in> set (loans s). \<not> bookId l' = bid"
  proof
    fix l' assume l': "l' \<in> set (loans s)"
    show "\<not> bookId l' = bid"
    proof
      assume eq: "bookId l' = bid"
      from assms(2) show False
      proof
        assume "reachable s"
        then have "store_inv s" by (rule reachable_inv)
        from inv_lent_has_book [OF this l' bmem(1)] bmem(2) b(2) eq show False by simp
      next
        assume "bid \<notin> bookId ` set (loans s)"
        with l' eq show False by auto
      qed
    qed
  qed
  then have idx: "findIndex (\<lambda>l. bookId l = bid) (loans s @ [l]) = Some (length (loans s))"
    using l(1) by (rule findIndex_append_fresh)
  have ret: "returnBook t3 bid (s\<lparr>loans := loans s @ [l], books := set_status bid ''loaned'' (books s)\<rparr>)
      = (Inr l, s\<lparr>loanHistory := loanHistory s @ [close_loan l t3],
                    books := set_status bid ''available'' (books s)\<rparr>)"
    by (simp add: returnBook_def idx splice1_last set_status_twice Let_def)
  have same: "set_status bid ''available'' (books s) = books s" if "reachable s"
  proof -
    from that have "store_inv s" by (rule reachable_inv)
    with bmem(1) b(2) have "status b = ''available''" unfolding store_inv_def by blast
    with b(1) show ?thesis by (simp add: getBook_def set_status_same)
  qed
  from fresh have "bid \<notin> bookId ` set (loans s)" by auto
  moreover have "loanDate (close_loan l t3) = t1" "returnDate (close_loan l t3) = t3"
    using l(2) by (simp_all add: close_loan_def)
  moreover have "map_option status (find (\<lambda>b. book_id b = bid)
      (set_status bid ''available'' (books s))) = Some ''available''"
    using b(1) by (simp add: find_set_status getBook_def)
  ultimately show ?thesis
    unfolding assms(3) s1 ret using same by (simp add: getBook_def)
qed

theorem loan_then_return_roundtrip_witness:
  "reachable one_book
   \<and> fst (loanBook 30 31 ''B001'' ''20'' DaysOmitted None one_book) = Inr kims_loan
   \<and> fst (returnBook 50 ''B001'' (snd (loanBook 30 31 ''B001'' ''20'' DaysOmitted None one_book)))
       = Inr kims_loan
   \<and> snd (returnBook 50 ''B001'' (snd (loanBook 30 31 ''B001'' ''20'' DaysOmitted None one_book)))
       = one_book\<lparr>loanHistory := [close_loan kims_loan 50]\<rparr>
   \<and> loanDate (close_loan kims_loan 50) = 30
   \<and> returnDate (close_loan kims_loan 50) = 50"
  using loan_then_return_roundtrip [of 30 31 "''B001''" "''20''"
      DaysOmitted None one_book kims_loan
      "snd (returnBook 50 ''B001'' (snd (loanBook 30 31 ''B001'' ''20'' DaysOmitted None one_book)))"
      50]
    reachable_one_book
  by (simp add: loan_at_one_book)
     (simp add: one_book_value returnBook_def kims_loan_def splice1_def Let_def)

text \<open>
  The claim as it was stated fails twice. The two dates are two readings of the wall clock:
  when the clock reads 30 at the loan and 20 at the return, the entry has a returnDate
  below its loanDate. And in a store with a stale loan of B on record, returnBook closes
  that old loan: the loan just made stays active although B is marked available.
\<close>

theorem loan_then_return_counterexample:
  "fst (loanBook 30 31 ''B001'' ''20'' DaysOmitted None one_book) = Inr kims_loan
   \<and> loanHistory (snd (returnBook 20 ''B001''
         (snd (loanBook 30 31 ''B001'' ''20'' DaysOmitted None one_book))))
       = [close_loan kims_loan 20]
   \<and> returnDate (close_loan kims_loan 20) < loanDate (close_loan kims_loan 20)
   \<and> fst (loanBook 30 31 ''B001'' ''20'' DaysOmitted None stale_loan) = Inr kims_loan
   \<and> fst (returnBook 50 ''B001''
         (snd (loanBook 30 31 ''B001'' ''20'' DaysOmitted None stale_loan))) = Inr old_loan
   \<and> loans (snd (returnBook 50 ''B001''
         (snd (loanBook 30 31 ''B001'' ''20'' DaysOmitted None stale_loan)))) = [kims_loan]
   \<and> map_option status (getBook ''B001'' (snd (returnBook 50 ''B001''
         (snd (loanBook 30 31 ''B001'' ''20'' DaysOmitted None stale_loan)))))
       = Some ''available''"
proof -
  have stale: "loanBook 30 31 ''B001'' ''20'' DaysOmitted None stale_loan
      = (Inr kims_loan,
         stale_loan\<lparr>loans := [old_loan, kims_loan],
           books := [\<lparr>book_id = ''B001'', title = Some ''Emma'', author = ''Austen'',
                      publisher = [], status = ''loaned'', book_addedDate = 10\<rparr>]\<rparr>)"
    by (simp add: stale_loan_def loanBook_def getBook_def getStudent_def due_instant_def
          msPerDay_def maxTime_def kims_loan_def Let_def decimal.simps digit_char_def)
  show ?thesis
    by (simp add: loan_at_one_book stale)
       (simp add: one_book_value stale_loan_def returnBook_def getBook_def kims_loan_def
          old_loan_def close_loan_def splice1_def Let_def)
qed

subsection \<open>C4: a failing operation mutates nothing\<close>

text \<open>
  Claim C4. Whenever one of the store operations addBook, deleteBook, deleteStudent,
  loanBook, returnBook or deleteLoan (or addStudent, which never does) raises an error, the
  four collections after the call are the ones before the call: every check precedes every
  write. The theorem covers every error, the RangeError of an invalid due date included.
\<close>

theorem failing_call_keeps_store:
  "fst (run c s) = Some e \<Longrightarrow> snd (run c s) = s"
  by (cases c)
     (auto simp: outcome_def addStudent_succeeds split: sum.splits
           dest: addBook_error_keeps deleteBook_error_keeps deleteStudent_error_keeps
                 loanBook_error_keeps returnBook_error_keeps deleteLoan_error_keeps)

theorem failing_call_keeps_store_witness:
  "fst (run (DeleteBook ''B001'') one_book_lent) = Some BookOnLoanError
   \<and> snd (run (DeleteBook ''B001'') one_book_lent) = one_book_lent"
  using failing_call_keeps_store [of "DeleteBook ''B001''" one_book_lent BookOnLoanError]
  by (simp add: one_book_lent_value outcome_def deleteBook_def)

subsection \<open>C5: the id of a new book\<close>

text \<open>
  Claim C5, as amended. While every numeric suffix of the catalog is below \<open>2 ^ 53\<close>, the
  id that addBook synthesizes is the one the specification describes (the maximum numeric
  suffix of the ids of the form B and digits, plus one, padded to three digits), and when
  the caller supplies no id (none, or the empty string of a blank form field) addBook
  succeeds and appends an available book with that id. From a catalog whose ids are B001
  and B003 the id is B004; from a catalog without a matching id it is B001; and a supplied
  id that a book of the catalog already has makes addBook fail with DuplicateIdError.
\<close>

theorem addBook_id_synthesis:
  "(exact_suffixes s \<longrightarrow>
      generateBookId s = spec_next_book_id (map book_id (books s))
      \<and> (data_id d = None \<or> data_id d = Some [] \<longrightarrow>
           addBook now d s =
             (Inr \<lparr>book_id = generateBookId s, title = data_title d,
                   author = or_string (data_author d) [],
                   publisher = or_string (data_publisher d) [],
                   status = ''available'', book_addedDate = now\<rparr>,
              s\<lparr>books := books s @
                   [\<lparr>book_id = generateBookId s, title = data_title d,
                     author = or_string (data_author d) [],
                     publisher = or_string (data_publisher d) [],
                     status = ''available'', book_addedDate = now\<rparr>]\<rparr>)))
   \<and> (set (map book_id (books s)) = {''B001'', ''B003''} \<longrightarrow> generateBookId s = ''B004'')
   \<and> ((\<forall>b \<in> set (books s). match_B_digits (book_id b) = None) \<longrightarrow> generateBookId s = ''B001'')
   \<and> (data_id d = Some i \<and> i \<noteq> [] \<and> i \<in> book_id ` set (books s) \<longrightarrow>
        addBook now d s = (Inl DuplicateIdError, s))"
proof (intro conjI impI)
  assume "exact_suffixes s"
  then show "generateBookId s = spec_next_book_id (map book_id (books s))"
    by (rule generateBookId_spec)
next
  assume exact: "exact_suffixes s" and "data_id d = None \<or> data_id d = Some []"
  then have "or_string (data_id d) (generateBookId s) = generateBookId s" by auto
  moreover have "find (\<lambda>x. book_id x = generateBookId s) (books s) = None"
    using generateBookId_fresh [OF exact] by (simp add: find_None_iff_ids)
  ultimately show "addBook now d s =
          (Inr \<lparr>book_id = generateBookId s, title = data_title d,
                author = or_string (data_author d) [],
                publisher = or_string (data_publisher d) [],
                status = ''available'', book_addedDate = now\<rparr>,
           s\<lparr>books := books s @
                [\<lparr>book_id = generateBookId s, title = data_title d,
                  author = or_string (data_author d) [],
                  publisher = or_string (data_publisher d) [],
                  status = ''available'', book_addedDate = now\<rparr>]\<rparr>)"
    by (simp add: addBook_def Let_def)
next
  assume ids: "set (map book_id (books s)) = {''B001'', ''B003''}"
  have m1: "match_B_digits ''B001'' \<noteq> None" and m3: "match_B_digits ''B003'' \<noteq> None"
    by (simp_all add: is_digit_def)
  have v1: "digits_value ''001'' = 1" and v3: "digits_value ''003'' = 3"
    by (simp_all add: digits_value_def digit_val_def)
  have exact: "exact_suffixes s"
    unfolding exact_suffixes_def
  proof (intro ballI impI)
    fix b assume "b \<in> set (books s)"
    then have "book_id b \<in> {''B001'', ''B003''}" using ids by auto
    then show "digits_value (tl (book_id b)) < 9007199254740992"
      using v1 v3 by auto
  qed
  have "set (filter (\<lambda>i. match_B_digits i \<noteq> None) (map book_id (books s)))
      = {i \<in> set (map book_id (books s)). match_B_digits i \<noteq> None}"
    by (rule set_filter)
  also have "\<dots> = {''B001'', ''B003''}"
    unfolding ids using m1 m3 by blast
  finally have "set (map (\<lambda>i. digits_value (tl i))
        (filter (\<lambda>i. match_B_digits i \<noteq> None) (map book_id (books s))))
      = {digits_value ''001'', digits_value ''003''}"
    by (simp only: set_map image_insert image_empty list.sel)
  with v1 v3 have "Max (insert 0 (set (map (\<lambda>i. digits_value (tl i))
        (filter (\<lambda>i. match_B_digits i \<noteq> None) (map book_id (books s)))))) = 3"
    by simp
  moreover have "CHR ''B'' # padStart 3 (CHR ''0'') (decimal (3 + 1)) = ''B004''"
    by (simp add: padStart_def decimal.simps digit_char_def numeral_2_eq_2)
  ultimately show "generateBookId s = ''B004''"
    by (simp only: generateBookId_spec [OF exact] spec_next_book_id_def Let_def)
next
  assume none: "\<forall>b \<in> set (books s). match_B_digits (book_id b) = None"
  then have exact: "exact_suffixes s" by (simp add: exact_suffixes_def)
  from none have "filter (\<lambda>i. match_B_digits i \<noteq> None) (map book_id (books s)) = []"
    by (simp add: filter_empty_conv)
  then have "Max (insert 0 (set (map (\<lambda>i. digits_value (tl i))
        (filter (\<lambda>i. match_B_digits i \<noteq> None) (map book_id (books s)))))) = 0"
    by simp
  moreover have "CHR ''B'' # padStart 3 (CHR ''0'') (decimal (0 + 1)) = ''B001''"
    by (simp add: padStart_def decimal.simps digit_char_def numeral_2_eq_2)
  ultimately show "generateBookId s = ''B001''"
    by (simp only: generateBookId_spec [OF exact] spec_next_book_id_def Let_def)
next
  assume a: "data_id d = Some i \<and> i \<noteq> [] \<and> i \<in> book_id ` set (books s)"
  then have "or_string (data_id d) (generateBookId s) = i" by simp
  moreover from a have "find (\<lambda>x. book_id x = i) (books s) \<noteq> None"
    by (simp add: find_None_iff_ids)
  ultimately show "addBook now d s = (Inl DuplicateIdError, s)"
    by (simp add: addBook_def Let_def)
qed

theorem addBook_id_synthesis_witness:
  "set (map book_id (books two_books)) = {''B001'', ''B003''}
   \<and> generateBookId two_books = spec_next_book_id (map book_id (books two_books))
   \<and> addBook 14 emma two_books
       = (Inr \<lparr>book_id = ''B004'', title = Some ''Emma'', author = ''Austen'', publisher = [],
               status = ''available'', book_addedDate = 14\<rparr>,
          two_books\<lparr>books := books two_books @
            [\<lparr>book_id = ''B004'', title = Some ''Emma'', author = ''Austen'', publisher = [],
              status = ''available'', book_addedDate = 14\<rparr>]\<rparr>)
   \<and> generateBookId odd_ids = ''B001''
   \<and> addBook 15 \<lparr>data_id = Some ''B003'', data_title = Some ''Emma'', data_author = None,
                  data_publisher = None\<rparr> two_books
       = (Inl DuplicateIdError, two_books)"
proof -
  have ids: "set (map book_id (books two_books)) = {''B001'', ''B003''}"
    by (auto simp: two_books_def)
  have exact: "exact_suffixes two_books"
    by (simp add: exact_suffixes_def two_books_def digits_value_def digit_val_def)
  have none: "\<forall>b \<in> set (books odd_ids). match_B_digits (book_id b) = None"
    by (simp add: odd_ids_def is_digit_def)
  have dup: "data_id \<lparr>data_id = Some ''B003'', data_title = Some ''Emma'', data_author = None,
                  data_publisher = None\<rparr> = Some ''B003'' \<and> ''B003'' \<noteq> []
      \<and> ''B003'' \<in> book_id ` set (books two_books)"
    by (simp add: two_books_def)
  note at_two = addBook_id_synthesis [of two_books emma 14 "''B003''"]
  from at_two ids have g: "generateBookId two_books = ''B004''" by blast
  from at_two exact
  have sp: "generateBookId two_books = spec_next_book_id (map book_id (books two_books))"
    by blast
  from at_two [THEN conjunct1] exact
  have a: "addBook 14 emma two_books
       = (Inr \<lparr>book_id = ''B004'', title = Some ''Emma'', author = ''Austen'', publisher = [],
               status = ''available'', book_addedDate = 14\<rparr>,
          two_books\<lparr>books := books two_books @
            [\<lparr>book_id = ''B004'', title = Some ''Emma'', author = ''Austen'', publisher = [],
              status = ''available'', book_addedDate = 14\<rparr>]\<rparr>)"
    by (simp add: emma_def g [symmetric])
  from addBook_id_synthesis [of odd_ids emma 14 "''B003''"] none
  have b: "generateBookId odd_ids = ''B001''" by blast
  from addBook_id_synthesis [of two_books "\<lparr>data_id = Some ''B003'', data_title = Some ''Emma'',
      data_author = None, data_publisher = None\<rparr>" 15 "''B003''"] dup
  have c: "addBook 15 \<lparr>data_id = Some ''B003'', data_title = Some ''Emma'', data_author = None,
                  data_publisher = None\<rparr> two_books = (Inl DuplicateIdError, two_books)"
    by blast
  from ids sp a b c show ?thesis by blast
qed

text \<open>
  The claim as it was stated, for every catalog, fails where the Numbers stop being exact.
  In a catalog that holds the id B9007199254740992 the maximum suffix is \<open>2 ^ 53\<close>; plus
  one it is \<open>2 ^ 53\<close> again, the synthesized id is the existing one and not the next one,
  and addBook without an id fails with DuplicateIdError.
\<close>

theorem addBook_id_counterexample:
  "generateBookId big_suffix = ''B9007199254740992''
   \<and> spec_next_book_id (map book_id (books big_suffix)) = ''B9007199254740993''
   \<and> addBook 16 emma big_suffix = (Inl DuplicateIdError, big_suffix)"
proof -
  have p: "parseInt ''9007199254740992'' = Fin 9007199254740992"
    by (simp add: parseInt_def value_2_53 to_double_exact)
  have d: "decimal 9007199254740992 = ''9007199254740992''"
      "decimal 9007199254740993 = ''9007199254740993''"
    by (simp_all add: decimal.simps digit_char_def)
  have g: "generateBookId big_suffix = ''B9007199254740992''"
    by (simp add: generateBookId_def big_suffix_def is_digit_def p plus_one_at_2_53
          nat_toString_def d padStart_def Let_def del: plus_one.simps)
  have sp: "spec_next_book_id (map book_id (books big_suffix)) = ''B9007199254740993''"
    by (simp add: spec_next_book_id_def big_suffix_def is_digit_def value_2_53 d padStart_def
          Let_def)
  have "addBook 16 emma big_suffix = (Inl DuplicateIdError, big_suffix)"
    by (simp add: addBook_def emma_def g Let_def) (simp add: big_suffix_def)
  with g sp show ?thesis by simp
qed

subsection \<open>C6: deleting a loan leaves the history alone\<close>

text \<open>
  Claim C6. When a book has an active loan, deleteLoan succeeds, removes that loan (the
  first one for the book; in a reachable store none is left), sets the status of the book
  to available, and leaves students and loanHistory unchanged. No operation on books,
  students or loans other than returnBook changes loanHistory, the bulk registration does
  not either, and importData only installs the history of the snapshot when there is one.
\<close>

theorem deleteLoan_is_history_silent:
  "(find (\<lambda>l. bookId l = bid) (loans s) = Some l \<longrightarrow>
      fst (deleteLoan bid s) = Inr ()
      \<and> loanHistory (snd (deleteLoan bid s)) = loanHistory s
      \<and> students (snd (deleteLoan bid s)) = students s
      \<and> loans (snd (deleteLoan bid s)) = remove1 l (loans s)
      \<and> books (snd (deleteLoan bid s)) = set_status bid ''available'' (books s)
      \<and> map_option status (getBook bid (snd (deleteLoan bid s)))
          = map_option (\<lambda>b. ''available'') (getBook bid s)
      \<and> (reachable s \<longrightarrow> bid \<notin> bookId ` set (loans (snd (deleteLoan bid s)))))
   \<and> ((\<forall>t b. c \<noteq> ReturnBook t b) \<longrightarrow> loanHistory (snd (run c s)) = loanHistory s)
   \<and> loanHistory (snd (addStudentsBulk clk ds s)) = loanHistory s
   \<and> loanHistory (importData d s)
       = (case snap_loanHistory d of None \<Rightarrow> loanHistory s | Some h \<Rightarrow> h)"
proof (intro conjI impI)
  show "loanHistory (importData d s)
       = (case snap_loanHistory d of None \<Rightarrow> loanHistory s | Some h \<Rightarrow> h)"
    by (simp add: importData_def split: option.splits)
next
  assume "\<forall>t b. c \<noteq> ReturnBook t b"
  then show "loanHistory (snd (run c s)) = loanHistory s" by (rule run_keeps_history)
next
  show "loanHistory (snd (addStudentsBulk clk ds s)) = loanHistory s"
    by (simp add: addStudentsBulk_def bulk_loop_keeps_history)
next
  assume f: "find (\<lambda>l. bookId l = bid) (loans s) = Some l"
  then obtain i where i: "findIndex (\<lambda>l. bookId l = bid) (loans s) = Some i"
    using find_Some_findIndex by fastforce
  have del: "deleteLoan bid s = (Inr (), s\<lparr>loans := splice1 i (loans s),
      books := set_status bid ''available'' (books s)\<rparr>)"
    by (simp add: deleteLoan_def i)
  have sp: "splice1 i (loans s) = remove1 l (loans s)"
    using findIndex_Some [OF i] remove_first_remove1 [OF f] by simp
  show "fst (deleteLoan bid s) = Inr ()" by (simp add: del)
  show "loanHistory (snd (deleteLoan bid s)) = loanHistory s" by (simp add: del)
  show "students (snd (deleteLoan bid s)) = students s" by (simp add: del)
  show "loans (snd (deleteLoan bid s)) = remove1 l (loans s)" by (simp add: del sp)
  show "books (snd (deleteLoan bid s)) = set_status bid ''available'' (books s)" by (simp add: del)
  show "map_option status (getBook bid (snd (deleteLoan bid s)))
          = map_option (\<lambda>b. ''available'') (getBook bid s)"
    by (simp add: del getBook_def find_set_status option.map_comp comp_def)
  show "bid \<notin> bookId ` set (loans (snd (deleteLoan bid s)))" if "reachable s"
  proof -
    from that have "distinct (map bookId (loans s))"
      using reachable_inv unfolding store_inv_def by blast
    from remove_first_distinct [OF this, of bid] findIndex_Some [OF i]
    have "splice1 i (loans s) = filter (\<lambda>l. bookId l \<noteq> bid) (loans s)" by simp
    then show ?thesis by (auto simp: del)
  qed
qed

theorem deleteLoan_is_history_silent_witness:
  "find (\<lambda>l. bookId l = ''B001'') (loans one_book_lent) = Some kims_loan
   \<and> reachable one_book_lent
   \<and> snd (deleteLoan ''B001'' one_book_lent) = one_book
   \<and> loanHistory (snd (run (DeleteLoan ''B001'') one_book_lent)) = loanHistory one_book_lent"
  using deleteLoan_is_history_silent [of "''B001''" one_book_lent kims_loan "DeleteLoan ''B001''"]
    reachable_one_book_lent
  by (simp add: one_book_lent_value one_book_value kims_loan_def deleteLoan_def splice1_def)

subsection \<open>C7: importing an export\<close>

text \<open>
  Claim C7. For every store, importData applied to the snapshot that exportData has just
  returned leaves books, students, loans and loanHistory as they were: each of the four
  fields of the snapshot is an array, hence truthy, and is assigned back.
\<close>

theorem import_of_export:
  "importData (exportData now s) s = s"
  by (simp add: importData_def exportData_def)

subsection \<open>C8: the number of a new student\<close>

text \<open>
  Claim C8, as amended. addStudent assigns the caller-supplied number when one is given and
  is not 0; otherwise (no number, or the number 0, which \<open>||\<close> treats as absent) it assigns
  the maximum of 0 and the existing numbers, plus 1 as the Numbers of the language add:
  exactly that maximum plus 1 while the maximum is below \<open>2 ^ 53\<close>, hence 1 on an empty
  roster, and the nearest double beyond. After the call the roster is the old roster plus
  the new record, sorted by number ascending.
\<close>

theorem addStudent_number_and_order:
  "fst (addStudent t1 t2 d s) = Inr st \<Longrightarrow>
     number st = (case data_number d of
                    None \<Rightarrow> plus_one (Max (insert (Fin 0) (number ` set (students s))))
                  | Some n \<Rightarrow>
                      if n = Fin 0
                      then plus_one (Max (insert (Fin 0) (number ` set (students s))))
                      else n)
     \<and> (Max (insert (Fin 0) (number ` set (students s))) = Fin m \<and> m < 9007199254740992
          \<longrightarrow> plus_one (Max (insert (Fin 0) (number ` set (students s)))) = Fin (m + 1))
     \<and> sorted (map number (students (snd (addStudent t1 t2 d s))))
     \<and> mset (students (snd (addStudent t1 t2 d s))) = mset (students s) + {#st#}"
proof -
  assume a: "fst (addStudent t1 t2 d s) = Inr st"
  have exact: "plus_one (Max (insert (Fin 0) (number ` set (students s)))) = Fin (m + 1)"
    if "Max (insert (Fin 0) (number ` set (students s))) = Fin m" "m < 9007199254740992"
  proof -
    have "Fin 0 \<le> Max (insert (Fin 0) (number ` set (students s)))" by simp
    with that(1) have "0 \<le> m" by simp
    with that show ?thesis by (simp only: plus_one_exact)
  qed
  from a have "number st = (case data_number d of
                    None \<Rightarrow> plus_one (Max (insert (Fin 0) (number ` set (students s))))
                  | Some n \<Rightarrow>
                      if n = Fin 0
                      then plus_one (Max (insert (Fin 0) (number ` set (students s))))
                      else n)
     \<and> sorted (map number (students (snd (addStudent t1 t2 d s))))
     \<and> mset (students (snd (addStudent t1 t2 d s))) = mset (students s) + {#st#}"
    by (cases "data_number d") (auto simp: addStudent_def Let_def generateStudentNumber_Max)
  with exact show ?thesis by blast
qed

theorem addStudent_number_and_order_witness:
  "fst (addStudent 40 41 \<lparr>data_number = Some (Fin (- 7)), data_name = Some ''Park''\<rparr> minus_five)
     = Inr \<lparr>student_id = ''40'', number = Fin (- 7), name = Some ''Park'',
            student_addedDate = 41\<rparr>
   \<and> map number (students (snd (addStudent 40 41
        \<lparr>data_number = Some (Fin (- 7)), data_name = Some ''Park''\<rparr> minus_five)))
       = [Fin (- 7), Fin (- 5)]
   \<and> Max (insert (Fin 0) (number ` set (students minus_five))) = Fin 0
   \<and> plus_one (Max (insert (Fin 0) (number ` set (students minus_five)))) = Fin 1"
  using addStudent_number_and_order [of 40 41
      "\<lparr>data_number = Some (Fin (- 7)), data_name = Some ''Park''\<rparr>" minus_five
      "\<lparr>student_id = ''40'', number = Fin (- 7), name = Some ''Park'',
        student_addedDate = 41\<rparr>" 0]
  by (simp add: addStudent_def minus_five_def Let_def decimal.simps digit_char_def)

text \<open>
  The claim as it was stated fails. A caller who supplies the number 0 gets the number 1 on
  an empty roster; on a roster whose only number is -5 the synthesized number is 1, not
  max(existing) + 1 = -4; and on a roster whose only number is \<open>2 ^ 53\<close> the synthesized
  number is \<open>2 ^ 53\<close> again.
\<close>

theorem addStudent_number_counterexample:
  "fst (addStudent 5 6 \<lparr>data_number = Some (Fin 0), data_name = Some ''Kim''\<rparr> empty_store)
     = Inr \<lparr>student_id = ''5'', number = Fin 1, name = Some ''Kim'', student_addedDate = 6\<rparr>
   \<and> fst (addStudent 7 8 \<lparr>data_number = None, data_name = Some ''Choi''\<rparr> minus_five)
     = Inr \<lparr>student_id = ''7'', number = Fin 1, name = Some ''Choi'', student_addedDate = 8\<rparr>
   \<and> Max (number ` set (students minus_five)) = Fin (- 5)
   \<and> fst (addStudent 9 10 \<lparr>data_number = None, data_name = Some ''Han''\<rparr> big_number)
     = Inr \<lparr>student_id = ''9'', number = Fin 9007199254740992, name = Some ''Han'',
            student_addedDate = 10\<rparr>"
  by (simp add: addStudent_def generateStudentNumber_def empty_store_def minus_five_def
        big_number_def Let_def decimal.simps digit_char_def plus_one_exact plus_one_at_2_53
        del: plus_one.simps)

subsection \<open>C9: student ids\<close>

text \<open>
  Claim C9. The id of a student is the decimal clock reading at the call, never an id of
  the caller. It is not unique: a bulk registration of two students whose two calls read the
  same millisecond gives both the same id.
\<close>

theorem bulk_ids_collide:
  "map student_id (students (snd (addStudentsBulk (\<lambda>k. 1700000000000)
       [\<lparr>data_number = None, data_name = Some ''Kim''\<rparr>,
        \<lparr>data_number = None, data_name = Some ''Lee''\<rparr>] empty_store)))
     = [''1700000000000'', ''1700000000000'']"
  by (simp add: addStudentsBulk_def addStudent_def generateStudentNumber_def empty_store_def
        Let_def decimal_1700000000000 to_double_exact)

subsection \<open>C10: the bulk registration has no failures\<close>

text \<open>
  Claim C10. addStudent returns a record for every input object, so addStudentsBulk returns
  an empty failed bucket and a success bucket with one record per input entry, in input
  order: the i-th record carries the name of the i-th entry and the id read from the clock
  at the i-th call, and the roster gains exactly the records of the success bucket.
\<close>

theorem addStudentsBulk_all_succeed:
  "(\<exists>st. fst (addStudent t1 t2 d s) = Inr st)
   \<and> failed (fst (addStudentsBulk clk ds s)) = []
   \<and> length (success (fst (addStudentsBulk clk ds s))) = length ds
   \<and> map name (success (fst (addStudentsBulk clk ds s))) = map data_name ds
   \<and> map student_id (success (fst (addStudentsBulk clk ds s)))
       = map (\<lambda>i. decimal (clk (2 * i))) [0..<length ds]
   \<and> mset (students (snd (addStudentsBulk clk ds s)))
       = mset (students s) + mset (success (fst (addStudentsBulk clk ds s)))"
proof -
  let ?r = "bulk_loop clk 0 ds \<lparr>success = [], failed = []\<rparr> s"
  have one: "\<exists>st. fst (addStudent t1 t2 d s) = Inr st"
    by (simp add: addStudent_def Let_def)
  have buckets: "failed (fst ?r) = []" "map name (success (fst ?r)) = map data_name ds"
    "map student_id (success (fst ?r)) = map (\<lambda>i. decimal (clk (2 * i))) [0..<length ds]"
    using bulk_loop_buckets [of clk 0 ds "\<lparr>success = [], failed = []\<rparr>" s] by simp_all
  from buckets(2) have len: "length (success (fst ?r)) = length ds"
    by (metis length_map)
  from bulk_loop_roster [of clk 0 ds "\<lparr>success = [], failed = []\<rparr>" s]
  have roster: "mset (students (snd ?r)) = mset (students s) + mset (success (fst ?r))"
    by auto
  show ?thesis
    unfolding addStudentsBulk_def using one buckets len roster by simp
qed

end
